theory Spec2Isabelle
  imports Complex_Main
begin

section \<open>Numbers\<close>

text \<open>
  The statistics service and the clustering routine compute on JavaScript numbers.
  They are modelled as \<^typ>\<open>real\<close>: every input is a finite number (the upload handler
  drops rows whose fields do not parse), and rounding and overflow of the binary
  floating-point format are left out.  Counters that only ever hold small integers
  (the Mann-Kendall sum, the Pettitt statistic, array indices) are \<^typ>\<open>int\<close> or
  \<^typ>\<open>nat\<close>.
\<close>

section \<open>statsService: Mann-Kendall trend test\<close>

text \<open>
  The three strings the function can return; the source's literals carry a Persian
  word followed by the English one in parentheses.
\<close>

datatype trend = Increasing | Decreasing | Stable

text \<open>The inner loop \<^verbatim>\<open>for (let j = i + 1; j < n; j++)\<close>, with its two tests on \<open>s\<close>.\<close>

function mk_inner :: "real list \<Rightarrow> nat \<Rightarrow> nat \<Rightarrow> int \<Rightarrow> int" where
  "mk_inner data i j s =
     (if j < length data then
        (let s1 = (if data ! j > data ! i then s + 1 else s);
             s2 = (if data ! j < data ! i then s1 - 1 else s1)
         in mk_inner data i (j + 1) s2)
      else s)"
  by pat_completeness auto
termination
  by (relation "measure (\<lambda>(data, i, j, s). length data - j)") auto

declare mk_inner.simps [simp del]

text \<open>The outer loop \<^verbatim>\<open>for (let i = 0; i < n - 1; i++)\<close>; \<open>n - 1\<close> is \<open>-1\<close> for the empty array.\<close>

function mk_outer :: "real list \<Rightarrow> nat \<Rightarrow> int \<Rightarrow> int" where
  "mk_outer data i s =
     (if int i < int (length data) - 1 then mk_outer data (i + 1) (mk_inner data i (i + 1) s)
      else s)"
  by pat_completeness auto
termination
  by (relation "measure (\<lambda>(data, i, s). length data - i)") auto

declare mk_outer.simps [simp del]

definition calculateMannKendall :: "real list \<Rightarrow> trend" where
  "calculateMannKendall data =
     (let s = mk_outer data 0 0
      in if s > 0 then Increasing else if s < 0 then Decreasing else Stable)"

text \<open>The statistic as the specification words it: the signed count over all pairs \<open>i < j\<close>.\<close>

definition sign :: "real \<Rightarrow> int" where
  "sign d = (if d > 0 then 1 else if d < 0 then - 1 else 0)"

definition mk_sum :: "real list \<Rightarrow> int" where
  "mk_sum data = (\<Sum>i = 0..<length data. \<Sum>j = i + 1..<length data. sign (data ! j - data ! i))"

section \<open>statsService: Pettitt change point\<close>

text \<open>
  The function returns a date label, \<^verbatim>\<open>null\<close>, or \<^verbatim>\<open>undefined\<close> when the index read
  lies beyond the end of \<open>dates\<close>.
\<close>

datatype js_string = Null | Undefined | Str string

definition js_index :: "'a list \<Rightarrow> nat \<Rightarrow> 'a option" where
  "js_index xs i = (if i < length xs then Some (xs ! i) else None)"

definition date_at :: "string list \<Rightarrow> nat \<Rightarrow> js_string" where
  "date_at dates i = (case js_index dates i of None \<Rightarrow> Undefined | Some d \<Rightarrow> Str d)"

text \<open>\<^verbatim>\<open>for (let j = t; j < n; j++) { const diff = data[i] - data[j]; u += ... }\<close>\<close>

function pettitt_j :: "real list \<Rightarrow> nat \<Rightarrow> nat \<Rightarrow> int \<Rightarrow> int" where
  "pettitt_j data i j u =
     (if j < length data then
        (let diff = data ! i - data ! j
         in pettitt_j data i (j + 1) (u + (if diff > 0 then 1 else if diff < 0 then - 1 else 0)))
      else u)"
  by pat_completeness auto
termination
  by (relation "measure (\<lambda>(data, i, j, u). length data - j)") auto

declare pettitt_j.simps [simp del]

text \<open>\<^verbatim>\<open>for (let i = 0; i < t; i++)\<close>\<close>

function pettitt_i :: "real list \<Rightarrow> nat \<Rightarrow> nat \<Rightarrow> int \<Rightarrow> int" where
  "pettitt_i data t i u =
     (if i < t then pettitt_i data t (i + 1) (pettitt_j data i t u) else u)"
  by pat_completeness auto
termination
  by (relation "measure (\<lambda>(data, t, i, u). t - i)") auto

declare pettitt_i.simps [simp del]

text \<open>
  \<^verbatim>\<open>for (let t = 1; t < n; t++)\<close>, carrying \<open>maxU\<close> and \<open>changePointIdx\<close>; the index is an
  \<^typ>\<open>int\<close> because the source starts it at \<open>-1\<close>.
\<close>

function pettitt_t :: "real list \<Rightarrow> nat \<Rightarrow> int \<Rightarrow> int \<Rightarrow> int \<times> int" where
  "pettitt_t data t maxU changePointIdx =
     (if t < length data then
        (let u = pettitt_i data t 0 0
         in if \<bar>u\<bar> > maxU then pettitt_t data (t + 1) \<bar>u\<bar> (int t)
            else pettitt_t data (t + 1) maxU changePointIdx)
      else (maxU, changePointIdx))"
  by pat_completeness auto
termination
  by (relation "measure (\<lambda>(data, t, maxU, changePointIdx). length data - t)") auto

declare pettitt_t.simps [simp del]

definition findPettittChangePoint :: "real list \<Rightarrow> string list \<Rightarrow> js_string" where
  "findPettittChangePoint data dates =
     (let n = length data
      in if n < 4 then Null
         else (let changePointIdx = snd (pettitt_t data 1 0 (- 1))
               in if changePointIdx \<noteq> - 1 then date_at dates (nat changePointIdx) else Null))"

text \<open>The statistic \<open>U(t)\<close> as the specification words it.\<close>

definition pettitt_U :: "real list \<Rightarrow> nat \<Rightarrow> int" where
  "pettitt_U data t = (\<Sum>i = 0..<t. \<Sum>j = t..<length data. sign (data ! i - data ! j))"

section \<open>statsService: Shewhart control limits\<close>

record limits =
  mean :: real
  ucl :: real
  lcl :: real

text \<open>\<^verbatim>\<open>xs.reduce((a, b) => a + b, 0)\<close>\<close>

definition reduce_add :: "real list \<Rightarrow> real" where
  "reduce_add xs = foldl (\<lambda>a b. a + b) 0 xs"

definition calculateControlLimits :: "real list \<Rightarrow> limits" where
  "calculateControlLimits data =
     (let n = length data
      in if n = 0 then \<lparr>mean = 0, ucl = 0, lcl = 0\<rparr>
         else (let mean = reduce_add data / real n;
                   stdDev = sqrt (reduce_add (map (\<lambda>x. (x - mean) ^ 2) data) / real n)
               in \<lparr>mean = mean, ucl = mean + 3 * stdDev, lcl = max 0 (mean - 3 * stdDev)\<rparr>))"

text \<open>Arithmetic mean and population standard deviation, as the specification words them.\<close>

definition arith_mean :: "real list \<Rightarrow> real" where
  "arith_mean xs = sum_list xs / real (length xs)"

definition population_sd :: "real list \<Rightarrow> real" where
  "population_sd xs = sqrt ((\<Sum>x\<leftarrow>xs. (x - arith_mean xs) ^ 2) / real (length xs))"

section \<open>statsService: EWMA\<close>

text \<open>
  \<^verbatim>\<open>for (let i = 1; i < data.length; i++) ewma.push(lambda * data[i] + (1 - lambda) * ewma[i - 1])\<close>
\<close>

function ewma_loop :: "real list \<Rightarrow> real \<Rightarrow> nat \<Rightarrow> real list \<Rightarrow> real list" where
  "ewma_loop data lambda i ewma =
     (if i < length data then
        ewma_loop data lambda (i + 1) (ewma @ [lambda * data ! i + (1 - lambda) * ewma ! (i - 1)])
      else ewma)"
  by pat_completeness auto
termination
  by (relation "measure (\<lambda>(data, lambda, i, ewma). length data - i)") auto

declare ewma_loop.simps [simp del]

definition calculateEWMA :: "real list \<Rightarrow> real \<Rightarrow> real list" where
  "calculateEWMA data lambda =
     (if length data = 0 then [] else ewma_loop data lambda 1 [data ! 0])"

section \<open>types: samples and periods\<close>

text \<open>
  \<^verbatim>\<open>interface WaterSample\<close> and \<^verbatim>\<open>interface TimePoint\<close>.  The field \<^verbatim>\<open>id\<close> is called
  \<open>sample_id\<close> here, and the fields of a period \<open>tp_date\<close> and \<open>tp_samples\<close>; an optional field is an \<^typ>\<open>'a option\<close>, \<open>None\<close> when it is
  absent or \<^verbatim>\<open>undefined\<close>.
\<close>

record WaterSample =
  sample_id :: string
  conductivity :: real
  nitrate :: real
  timestamp :: string
  location :: "string option"
  cluster :: "string option"
  clusterColor :: "string option"

record TimePoint =
  tp_date :: string
  tp_samples :: "WaterSample list"

section \<open>App: cluster labels\<close>

text \<open>
  The five default labels are Persian words in the source; they are written here by
  their meaning, from the lowest severity to the highest.  For any other cluster count
  the label of index \<open>i\<close> is a fixed Persian word for ``group'' followed by \<open>i + 1\<close>.
\<close>

definition DEFAULT_CLUSTER_LABELS :: "string list" where
  "DEFAULT_CLUSTER_LABELS = [''excellent'', ''good'', ''fair'', ''poor'', ''critical'']"

fun string_of_nat :: "nat \<Rightarrow> string" where
  "string_of_nat n =
     (if n < 10 then [char_of (48 + n)]
      else string_of_nat (n div 10) @ [char_of (48 + n mod 10)])"

declare string_of_nat.simps [simp del]

definition currentClusterLabels :: "nat \<Rightarrow> string list" where
  "currentClusterLabels clusterCount =
     (if clusterCount = 5 then DEFAULT_CLUSTER_LABELS
      else map (\<lambda>i. ''group '' @ string_of_nat (i + 1)) [0..<clusterCount])"

section \<open>App: clustering of one period\<close>

datatype algo = Simple | KMeans

datatype js_error = TypeError

record centroid =
  ec :: real
  no3 :: real

text \<open>
  \<^verbatim>\<open>Math.sqrt(Math.pow(s.conductivity - c.ec, 2) + Math.pow(s.nitrate - c.no3, 2))\<close>
\<close>

definition distance :: "WaterSample \<Rightarrow> centroid \<Rightarrow> real" where
  "distance s c = sqrt ((conductivity s - ec c) ^ 2 + (nitrate s - no3 c) ^ 2)"

text \<open>
  The search for the nearest centroid, written twice in the source with the same body:
  \<^verbatim>\<open>let minDist = Infinity; let clusterIdx = 0;
  centroids.forEach((c, idx) => { const d = ...; if (d < minDist) { minDist = d; clusterIdx = idx; } })\<close>.
  \<open>minDist\<close> is \<open>None\<close> while it is \<^verbatim>\<open>Infinity\<close>.
\<close>

fun nearest_loop :: "WaterSample \<Rightarrow> centroid list \<Rightarrow> nat \<Rightarrow> real option \<Rightarrow> nat \<Rightarrow> nat" where
  "nearest_loop s [] idx minDist clusterIdx = clusterIdx"
| "nearest_loop s (c # cs) idx minDist clusterIdx =
     (let d = distance s c
      in if (case minDist of None \<Rightarrow> True | Some m \<Rightarrow> d < m)
         then nearest_loop s cs (idx + 1) (Some d) idx
         else nearest_loop s cs (idx + 1) minDist clusterIdx)"

definition nearestCentroid :: "WaterSample \<Rightarrow> centroid list \<Rightarrow> nat" where
  "nearestCentroid s centroids = nearest_loop s centroids 0 None 0"

text \<open>
  \<^verbatim>\<open>Math.max(...xs)\<close>.  For the empty array the source has \<^verbatim>\<open>-Infinity\<close>, which
  \<^typ>\<open>real\<close> lacks; \<open>clusterDataPerPeriod\<close> reaches that case only with \<open>count = 0\<close>,
  where no centroid is built from it.
\<close>

definition Math_max :: "real list \<Rightarrow> real" where
  "Math_max xs = (case xs of [] \<Rightarrow> 0 | x # ys \<Rightarrow> fold max ys x)"

text \<open>
  The uniform-range centroids:
  \<^verbatim>\<open>Array.from({ length: count }, (_, i) => ({ ec: (i / (count - 1)) * maxEC, no3: (i / (count - 1)) * maxNO3 }))\<close>.
  With \<open>count = 1\<close> the source divides 0 by 0 and the centroid is \<^verbatim>\<open>NaN\<close>; the statements
  below that speak of these centroids take \<open>count \<ge> 2\<close>.
\<close>

definition simple_centroids :: "nat \<Rightarrow> real \<Rightarrow> real \<Rightarrow> centroid list" where
  "simple_centroids count maxEC maxNO3 =
     map (\<lambda>i. \<lparr>ec = (real i / (real count - 1)) * maxEC,
               no3 = (real i / (real count - 1)) * maxNO3\<rparr>) [0..<count]"

text \<open>
  One sample of \<^verbatim>\<open>samples.forEach(s => { ...; groups[clusterIdx].push(s); })\<close>.  When
  \<open>clusterIdx\<close> is not an index of \<open>groups\<close>, \<^verbatim>\<open>groups[clusterIdx]\<close> is \<^verbatim>\<open>undefined\<close>
  and the call of \<^verbatim>\<open>push\<close> throws.
\<close>

definition assign_sample ::
  "centroid list \<Rightarrow> js_error + WaterSample list list \<Rightarrow> WaterSample \<Rightarrow> js_error + WaterSample list list" where
  "assign_sample centroids acc s =
     (case acc of
        Inl e \<Rightarrow> Inl e
      | Inr groups \<Rightarrow>
          (let clusterIdx = nearestCentroid s centroids
           in if clusterIdx < length groups
              then Inr (groups[clusterIdx := groups ! clusterIdx @ [s]])
              else Inl TypeError))"

text \<open>
  \<^verbatim>\<open>groups.map((group, idx) => { if (group.length === 0) return centroids[idx]; return { ec: ..., no3: ... }; })\<close>;
  \<open>groups\<close> and \<open>centroids\<close> both have \<open>count\<close> elements.
\<close>

definition recompute :: "centroid list \<Rightarrow> WaterSample list list \<Rightarrow> centroid list" where
  "recompute centroids groups =
     map (\<lambda>(group, idx).
            if length group = 0 then centroids ! idx
            else \<lparr>ec = foldl (\<lambda>a b. a + conductivity b) 0 group / real (length group),
                  no3 = foldl (\<lambda>a b. a + nitrate b) 0 group / real (length group)\<rparr>)
         (zip groups [0..<length groups])"

text \<open>The body of one pass of \<^verbatim>\<open>for (let iter = 0; iter < 10; iter++)\<close>.\<close>

definition kmeans_iteration ::
  "WaterSample list \<Rightarrow> nat \<Rightarrow> centroid list \<Rightarrow> js_error + centroid list" where
  "kmeans_iteration samples count centroids =
     (case foldl (assign_sample centroids) (Inr (replicate count [])) samples of
        Inl e \<Rightarrow> Inl e
      | Inr groups \<Rightarrow> Inr (recompute centroids groups))"

function kmeans_loop ::
  "WaterSample list \<Rightarrow> nat \<Rightarrow> nat \<Rightarrow> centroid list \<Rightarrow> js_error + centroid list" where
  "kmeans_loop samples count iter centroids =
     (if iter < 10 then
        (case kmeans_iteration samples count centroids of
           Inl e \<Rightarrow> Inl e
         | Inr centroids' \<Rightarrow> kmeans_loop samples count (iter + 1) centroids')
      else Inr centroids)"
  by pat_completeness auto
termination
  by (relation "measure (\<lambda>(samples, count, iter, centroids). 10 - iter)") auto

declare kmeans_loop.simps [simp del]

text \<open>\<^verbatim>\<open>samples.slice(0, count).map(s => ({ ec: s.conductivity, no3: s.nitrate }))\<close>\<close>

definition seed_centroids :: "WaterSample list \<Rightarrow> nat \<Rightarrow> centroid list" where
  "seed_centroids samples count =
     map (\<lambda>s. \<lparr>ec = conductivity s, no3 = nitrate s\<rparr>) (take count samples)"

text \<open>The centroids of either algorithm, before they are sorted.\<close>

definition computeCentroids :: "WaterSample list \<Rightarrow> nat \<Rightarrow> algo \<Rightarrow> js_error + centroid list" where
  "computeCentroids samples count algo =
     (let maxEC = Math_max (map conductivity samples);
          maxNO3 = Math_max (map nitrate samples)
      in if algo = Simple then Inr (simple_centroids count maxEC maxNO3)
         else kmeans_loop samples count 0 (seed_centroids samples count))"

text \<open>
  \<^verbatim>\<open>centroids.sort((a, b) => (a.ec + a.no3) - (b.ec + b.no3))\<close>: a stable sort by the sum
  of the two coordinates.
\<close>

definition magnitude :: "centroid \<Rightarrow> real" where
  "magnitude c = ec c + no3 c"

definition sortCentroids :: "centroid list \<Rightarrow> centroid list" where
  "sortCentroids centroids = sort_key magnitude centroids"

text \<open>
  \<open>clusterDataPerPeriod\<close> reads \<open>currentClusterLabels\<close> from the component; it is the first
  argument here.  Its only caller passes the component's cluster count as \<open>count\<close>, so that
  the labels are \<open>currentClusterLabels count\<close>.
\<close>

definition label_sample :: "string list \<Rightarrow> centroid list \<Rightarrow> WaterSample \<Rightarrow> WaterSample" where
  "label_sample labels centroids s = s\<lparr>cluster := js_index labels (nearestCentroid s centroids)\<rparr>"

definition clusterDataPerPeriod ::
  "string list \<Rightarrow> WaterSample list \<Rightarrow> nat \<Rightarrow> algo \<Rightarrow> js_error + WaterSample list" where
  "clusterDataPerPeriod labels samples count algo =
     (if length samples < count
      then Inr (map (\<lambda>s. s\<lparr>cluster := js_index labels 0\<rparr>) samples)
      else (case computeCentroids samples count algo of
              Inl e \<Rightarrow> Inl e
            | Inr centroids \<Rightarrow>
                Inr (map (label_sample labels (sortCentroids centroids)) samples)))"

text \<open>
  Two samples agree on the two measured fields, the only fields of a sample that the
  clustering reads.
\<close>

definition same_measurements :: "WaterSample \<Rightarrow> WaterSample \<Rightarrow> bool" where
  "same_measurements a b \<longleftrightarrow> conductivity a = conductivity b \<and> nitrate a = nitrate b"

text \<open>One pass of the k-means loop on a result that may already be a failure.\<close>

definition kmeans_pass ::
  "WaterSample list \<Rightarrow> nat \<Rightarrow> js_error + centroid list \<Rightarrow> js_error + centroid list" where
  "kmeans_pass samples count r =
     (case r of Inl e \<Rightarrow> Inl e | Inr centroids \<Rightarrow> kmeans_iteration samples count centroids)"

section \<open>App: volatility ranking\<close>

text \<open>
  An entry of a station's history, \<^verbatim>\<open>{ ec, no3, cluster }\<close>, and an entry of the ranking,
  \<^verbatim>\<open>{ id, score, jumps }\<close>.
\<close>

record history_entry =
  h_ec :: real
  h_no3 :: real
  h_cluster :: string

record ranking =
  r_id :: string
  score :: real
  jumps :: nat

text \<open>
  \<open>pointHistories\<close> is an object keyed by station id; it is an association list in the order
  in which the keys were first written.  (\<^verbatim>\<open>Object.entries\<close> lists keys that look like
  array indices before the others; only the order of the ranking's ties depends on it.
  Station ids are taken not to name a property that every object inherits, such as
  \<^verbatim>\<open>constructor\<close>, for which the test below finds a value that has no \<^verbatim>\<open>push\<close>.)
  \<^verbatim>\<open>if (!pointHistories[s.id]) pointHistories[s.id] = []; pointHistories[s.id].push(...)\<close>
\<close>

definition push_history ::
  "(string \<times> history_entry list) list \<Rightarrow> string \<Rightarrow> history_entry \<Rightarrow> (string \<times> history_entry list) list" where
  "push_history ph k e =
     (case map_of ph k of
        None \<Rightarrow> ph @ [(k, [e])]
      | Some h \<Rightarrow> map (\<lambda>(k', h'). if k' = k then (k', h' @ [e]) else (k', h')) ph)"

text \<open>The body of \<^verbatim>\<open>tp.samples.forEach(s => ...)\<close>; \<^verbatim>\<open>s.cluster || ''\<close> for the label.\<close>

definition collect_sample ::
  "(string \<times> history_entry list) list \<times> real list \<times> real list \<Rightarrow> WaterSample \<Rightarrow>
   (string \<times> history_entry list) list \<times> real list \<times> real list" where
  "collect_sample st s =
     (case st of (pointHistories, allEC, allNO3) \<Rightarrow>
        (push_history pointHistories (sample_id s)
           \<lparr>h_ec = conductivity s, h_no3 = nitrate s,
            h_cluster = (case cluster s of None \<Rightarrow> [] | Some c \<Rightarrow> c)\<rparr>,
         allEC @ [conductivity s],
         allNO3 @ [nitrate s]))"

definition collect ::
  "TimePoint list \<Rightarrow> (string \<times> history_entry list) list \<times> real list \<times> real list" where
  "collect processedTimePoints =
     foldl (\<lambda>st tp. foldl collect_sample st (tp_samples tp)) ([], [], []) processedTimePoints"

text \<open>\<^verbatim>\<open>meanEC || 1\<close>: 1 when the mean is 0 (or \<^verbatim>\<open>NaN\<close>, the mean of no value).\<close>

definition or_one :: "real \<Rightarrow> real" where
  "or_one m = (if m = 0 then 1 else m)"

text \<open>\<^verbatim>\<open>for (let i = 1; i < history.length; i++)\<close>, carrying \<open>totalChange\<close> and \<open>clusterJumps\<close>.\<close>

function volatility_loop ::
  "real \<Rightarrow> real \<Rightarrow> history_entry list \<Rightarrow> nat \<Rightarrow> real \<Rightarrow> nat \<Rightarrow> real \<times> nat" where
  "volatility_loop meanEC meanNO3 history i totalChange clusterJumps =
     (if i < length history then
        (let dEC = \<bar>h_ec (history ! i) - h_ec (history ! (i - 1))\<bar> / or_one meanEC;
             dNO3 = \<bar>h_no3 (history ! i) - h_no3 (history ! (i - 1))\<bar> / or_one meanNO3
         in volatility_loop meanEC meanNO3 history (i + 1)
              (totalChange + sqrt (dEC * dEC + dNO3 * dNO3))
              (if h_cluster (history ! i) \<noteq> h_cluster (history ! (i - 1))
               then clusterJumps + 1 else clusterJumps))
      else (totalChange, clusterJumps))"
  by pat_completeness auto
termination
  by (relation "measure (\<lambda>(meanEC, meanNO3, history, i, totalChange, clusterJumps). length history - i)")
    auto

declare volatility_loop.simps [simp del]

text \<open>The callback of \<^verbatim>\<open>Object.entries(pointHistories).map(([id, history]) => ...)\<close>.\<close>

definition station_ranking :: "real \<Rightarrow> real \<Rightarrow> string \<times> history_entry list \<Rightarrow> ranking" where
  "station_ranking meanEC meanNO3 entry =
     (case entry of (sid, history) \<Rightarrow>
        (case volatility_loop meanEC meanNO3 history 1 0 0 of (totalChange, clusterJumps) \<Rightarrow>
           (let avgChange = (if length history > 1 then totalChange / (real (length history) - 1) else 0);
                finalScore = avgChange + real clusterJumps * 0.2
            in \<lparr>r_id = sid, score = finalScore, jumps = clusterJumps\<rparr>)))"

text \<open>
  \<open>volatilityRanking\<close>, a function of the processed periods;
  \<^verbatim>\<open>rankings.sort((a, b) => b.score - a.score)\<close> is a stable sort, descending by score.
\<close>

definition volatilityRanking :: "TimePoint list \<Rightarrow> ranking list" where
  "volatilityRanking processedTimePoints =
     (if length processedTimePoints < 2 then []
      else (case collect processedTimePoints of (pointHistories, allEC, allNO3) \<Rightarrow>
              (let meanEC = reduce_add allEC / real (length allEC);
                   meanNO3 = reduce_add allNO3 / real (length allNO3)
               in sort_key (\<lambda>r. - score r) (map (station_ranking meanEC meanNO3) pointHistories))))"

section \<open>Proofs: Mann-Kendall\<close>

lemma mk_inner_eq:
  "mk_inner data i j s = s + (\<Sum>k = j..<length data. sign (data ! k - data ! i))"
proof (induction data i j s rule: mk_inner.induct)
  case (1 data i j s)
  show ?case
  proof (cases "j < length data")
    case True
    have step: "mk_inner data i j s = mk_inner data i (j + 1) (s + sign (data ! j - data ! i))"
      using True by (subst mk_inner.simps) (auto simp: sign_def Let_def)
    have "mk_inner data i (j + 1) (s + sign (data ! j - data ! i)) =
          (s + sign (data ! j - data ! i)) + (\<Sum>k = j + 1..<length data. sign (data ! k - data ! i))"
      using "1.IH"[OF True refl refl] by (auto simp: sign_def split: if_splits)
    with step True show ?thesis
      by (simp add: sum.atLeast_Suc_lessThan)
  next
    case False
    then show ?thesis by (subst mk_inner.simps) simp
  qed
qed

lemma mk_outer_eq:
  "mk_outer data i s =
     s + (\<Sum>a = i..<length data. \<Sum>k = a + 1..<length data. sign (data ! k - data ! a))"
proof (induction data i s rule: mk_outer.induct)
  case (1 data i s)
  show ?case
  proof (cases "int i < int (length data) - 1")
    case True
    then have il: "i < length data" by simp
    have "mk_outer data i s = mk_outer data (i + 1) (mk_inner data i (i + 1) s)"
      using True by (subst mk_outer.simps) simp
    also have "\<dots> = mk_inner data i (i + 1) s +
        (\<Sum>a = i + 1..<length data. \<Sum>k = a + 1..<length data. sign (data ! k - data ! a))"
      using "1.IH"[OF True] .
    finally show ?thesis using il
      by (simp add: mk_inner_eq sum.atLeast_Suc_lessThan)
  next
    case False
    then have "length data \<le> i + 1" by simp
    then have "(\<Sum>a = i..<length data. \<Sum>k = a + 1..<length data. sign (data ! k - data ! a)) = 0"
      by (intro sum.neutral) auto
    with False show ?thesis by (subst mk_outer.simps) simp
  qed
qed

lemma mk_outer_sum: "mk_outer data 0 0 = mk_sum data"
  by (simp add: mk_outer_eq mk_sum_def)

lemma mk_sum_uniform:
  assumes "\<And>i j. i < j \<Longrightarrow> j < length data \<Longrightarrow> sign (data ! j - data ! i) = c"
  shows "mk_sum data = c * (\<Sum>i = 0..<length data. int (length data - (i + 1)))"
proof -
  have "(\<Sum>j = i + 1..<length data. sign (data ! j - data ! i)) = c * int (length data - (i + 1))" for i
  proof -
    have "(\<Sum>j = i + 1..<length data. sign (data ! j - data ! i)) = (\<Sum>j = i + 1..<length data. c)"
      by (rule sum.cong) (auto simp: assms)
    then show ?thesis by simp
  qed
  then show ?thesis
    by (simp add: mk_sum_def sum_distrib_left)
qed

lemma pair_count_pos:
  assumes "2 \<le> n"
  shows "0 < (\<Sum>i = 0..<n. int (n - (i + 1)))"
proof (rule sum_pos2[where i = 0])
  show "0 < int (n - (0 + 1))" using assms by simp
qed (use assms in auto)

lemma mk_sum_increasing:
  assumes "sorted_wrt (<) data" "2 \<le> length data"
  shows "0 < mk_sum data"
proof -
  have "sign (data ! j - data ! i) = 1" if "i < j" "j < length data" for i j
    using assms(1) that by (simp add: sorted_wrt_iff_nth_less sign_def)
  then have "mk_sum data = 1 * (\<Sum>i = 0..<length data. int (length data - (i + 1)))"
    by (rule mk_sum_uniform)
  with pair_count_pos[OF assms(2)] show ?thesis by simp
qed

lemma mk_sum_decreasing:
  assumes "sorted_wrt (>) data" "2 \<le> length data"
  shows "mk_sum data < 0"
proof -
  have "sign (data ! j - data ! i) = - 1" if "i < j" "j < length data" for i j
  proof -
    have "data ! j < data ! i"
      using assms(1) that by (simp add: sorted_wrt_iff_nth_less)
    then show ?thesis by (simp add: sign_def)
  qed
  then have "mk_sum data = - 1 * (\<Sum>i = 0..<length data. int (length data - (i + 1)))"
    by (rule mk_sum_uniform)
  with pair_count_pos[OF assms(2)] show ?thesis by simp
qed

lemma mk_sum_constant:
  assumes "\<forall>x \<in> set data. x = c"
  shows "mk_sum data = 0"
proof -
  have "sign (data ! j - data ! i) = 0" if "i < j" "j < length data" for i j
  proof -
    have "data ! j = c" "data ! i = c"
      using assms that by (simp_all add: nth_mem)
    then show ?thesis by (simp add: sign_def)
  qed
  then have "mk_sum data = 0 * (\<Sum>i = 0..<length data. int (length data - (i + 1)))"
    by (rule mk_sum_uniform)
  then show ?thesis by simp
qed

text \<open>
  Claim C3.  \<open>calculateMannKendall\<close> answers by the sign of the signed count over all pairs
  \<open>i < j\<close> (\<open>+1\<close> when the later value is greater, \<open>-1\<close> when smaller, \<open>0\<close> when equal):
  increasing exactly when the count is positive, decreasing exactly when it is negative,
  stable exactly when it is zero.  Hence a strictly increasing sequence of length at least 2
  is increasing, a strictly decreasing one is decreasing, and a constant one is stable.
\<close>

theorem calculateMannKendall_verdict:
  "(calculateMannKendall data = Increasing \<longleftrightarrow> mk_sum data > 0) \<and>
   (calculateMannKendall data = Decreasing \<longleftrightarrow> mk_sum data < 0) \<and>
   (calculateMannKendall data = Stable \<longleftrightarrow> mk_sum data = 0) \<and>
   (sorted_wrt (<) data \<and> 2 \<le> length data \<longrightarrow> calculateMannKendall data = Increasing) \<and>
   (sorted_wrt (>) data \<and> 2 \<le> length data \<longrightarrow> calculateMannKendall data = Decreasing) \<and>
   ((\<forall>x \<in> set data. x = c) \<longrightarrow> calculateMannKendall data = Stable)"
proof -
  have v: "calculateMannKendall data =
      (if mk_sum data > 0 then Increasing else if mk_sum data < 0 then Decreasing else Stable)"
    by (simp add: calculateMannKendall_def mk_outer_sum)
  have a: "calculateMannKendall data = Increasing \<longleftrightarrow> mk_sum data > 0"
    and b: "calculateMannKendall data = Decreasing \<longleftrightarrow> mk_sum data < 0"
    and d: "calculateMannKendall data = Stable \<longleftrightarrow> mk_sum data = 0"
    by (auto simp: v)
  show ?thesis
    using a b d mk_sum_increasing[of data] mk_sum_decreasing[of data] mk_sum_constant[of data c]
    by blast
qed

theorem calculateMannKendall_verdict_witness:
  "calculateMannKendall [1, 2, 3, 4] = Increasing \<and>
   calculateMannKendall [4, 3, 2, 1] = Decreasing \<and>
   calculateMannKendall [5, 5, 5] = Stable \<and>
   mk_sum [1, 2, 3, 4] > 0 \<and> mk_sum [4, 3, 2, 1] < 0 \<and> mk_sum [5, 5, 5] = 0"
proof -
  have up: "sorted_wrt (<) [1, 2, 3, 4 :: real] \<and> 2 \<le> length [1, 2, 3, 4 :: real]"
    by simp
  have down: "sorted_wrt (>) [4, 3, 2, 1 :: real] \<and> 2 \<le> length [4, 3, 2, 1 :: real]"
    by simp
  have flat: "\<forall>x \<in> set [5, 5, 5 :: real]. x = 5"
    by simp
  show ?thesis
    using up down flat
      calculateMannKendall_verdict[of "[1, 2, 3, 4]" 0]
      calculateMannKendall_verdict[of "[4, 3, 2, 1]" 0]
      calculateMannKendall_verdict[of "[5, 5, 5]" 5]
    by blast
qed

section \<open>Proofs: Pettitt change point\<close>

lemma pettitt_j_eq:
  "pettitt_j data i j u = u + (\<Sum>k = j..<length data. sign (data ! i - data ! k))"
proof (induction data i j u rule: pettitt_j.induct)
  case (1 data i j u)
  show ?case
  proof (cases "j < length data")
    case True
    have "pettitt_j data i j u = pettitt_j data i (j + 1) (u + sign (data ! i - data ! j))"
      using True by (subst pettitt_j.simps) (simp add: sign_def Let_def)
    also have "\<dots> = (u + sign (data ! i - data ! j)) +
        (\<Sum>k = j + 1..<length data. sign (data ! i - data ! k))"
      using "1.IH"[OF True refl] by (simp add: sign_def)
    finally show ?thesis using True
      by (simp add: sum.atLeast_Suc_lessThan)
  next
    case False
    then show ?thesis by (subst pettitt_j.simps) simp
  qed
qed

lemma pettitt_i_eq:
  "pettitt_i data t i u =
     u + (\<Sum>a = i..<t. \<Sum>k = t..<length data. sign (data ! a - data ! k))"
proof (induction data t i u rule: pettitt_i.induct)
  case (1 data t i u)
  show ?case
  proof (cases "i < t")
    case True
    have "pettitt_i data t i u = pettitt_i data t (i + 1) (pettitt_j data i t u)"
      using True by (subst pettitt_i.simps) simp
    also have "\<dots> = pettitt_j data i t u +
        (\<Sum>a = i + 1..<t. \<Sum>k = t..<length data. sign (data ! a - data ! k))"
      using "1.IH"[OF True] .
    finally show ?thesis using True
      by (simp add: pettitt_j_eq sum.atLeast_Suc_lessThan)
  next
    case False
    then show ?thesis by (subst pettitt_i.simps) simp
  qed
qed

lemma pettitt_i_U: "pettitt_i data t 0 0 = pettitt_U data t"
  by (simp add: pettitt_i_eq pettitt_U_def)

lemma pettitt_t_inv:
  assumes "pettitt_t data t maxU cpi = (m, r)"
    and "1 \<le> t" "t \<le> length data"
    and "\<forall>t'. 1 \<le> t' \<and> t' < t \<longrightarrow> \<bar>pettitt_U data t'\<bar> \<le> maxU"
    and "(cpi = - 1 \<and> maxU = 0) \<or>
         (1 \<le> cpi \<and> cpi < int t \<and> \<bar>pettitt_U data (nat cpi)\<bar> = maxU \<and> 0 < maxU \<and>
          (\<forall>t'. 1 \<le> t' \<and> t' < nat cpi \<longrightarrow> \<bar>pettitt_U data t'\<bar> < maxU))"
  shows "(\<forall>t'. 1 \<le> t' \<and> t' < length data \<longrightarrow> \<bar>pettitt_U data t'\<bar> \<le> m) \<and>
         ((r = - 1 \<and> m = 0) \<or>
          (1 \<le> r \<and> r < int (length data) \<and> \<bar>pettitt_U data (nat r)\<bar> = m \<and> 0 < m \<and>
           (\<forall>t'. 1 \<le> t' \<and> t' < nat r \<longrightarrow> \<bar>pettitt_U data t'\<bar> < m)))"
  using assms
proof (induction data t maxU cpi rule: pettitt_t.induct)
  case (1 data t maxU cpi)
  show ?case
  proof (cases "t < length data")
    case False
    with "1.prems"(3) have tn: "t = length data" by simp
    from False "1.prems"(1) have "m = maxU" "r = cpi"
      by (subst (asm) pettitt_t.simps, simp)+
    with "1.prems" tn show ?thesis by simp
  next
    case True
    let ?u = "pettitt_U data t"
    show ?thesis
    proof (cases "\<bar>?u\<bar> > maxU")
      case gt: True
      have run: "pettitt_t data (t + 1) \<bar>?u\<bar> (int t) = (m, r)"
        using "1.prems"(1) True gt
        by (subst (asm) pettitt_t.simps) (simp add: pettitt_i_U Let_def)
      have b: "\<forall>t'. 1 \<le> t' \<and> t' < t + 1 \<longrightarrow> \<bar>pettitt_U data t'\<bar> \<le> \<bar>?u\<bar>"
      proof (intro allI impI)
        fix t' assume "1 \<le> t' \<and> t' < t + 1"
        then consider "t' = t" | "1 \<le> t' \<and> t' < t" by linarith
        then show "\<bar>pettitt_U data t'\<bar> \<le> \<bar>?u\<bar>"
          using "1.prems"(4) gt by cases force+
      qed
      have nonneg: "0 \<le> maxU" using "1.prems"(5) by auto
      have c: "(int t = - 1 \<and> \<bar>?u\<bar> = 0) \<or>
         (1 \<le> int t \<and> int t < int (t + 1) \<and> \<bar>pettitt_U data (nat (int t))\<bar> = \<bar>?u\<bar> \<and> 0 < \<bar>?u\<bar> \<and>
          (\<forall>t'. 1 \<le> t' \<and> t' < nat (int t) \<longrightarrow> \<bar>pettitt_U data t'\<bar> < \<bar>?u\<bar>))"
        using "1.prems"(2,4) gt nonneg by force
      show ?thesis
        using "1.IH"(1)[OF True pettitt_i_U[symmetric] _ run _ _ b c] True gt
        by (simp add: pettitt_i_U)
    next
      case le: False
      have run: "pettitt_t data (t + 1) maxU cpi = (m, r)"
        using "1.prems"(1) True le
        by (subst (asm) pettitt_t.simps) (simp add: pettitt_i_U Let_def)
      have b: "\<forall>t'. 1 \<le> t' \<and> t' < t + 1 \<longrightarrow> \<bar>pettitt_U data t'\<bar> \<le> maxU"
      proof (intro allI impI)
        fix t' assume "1 \<le> t' \<and> t' < t + 1"
        then consider "t' = t" | "1 \<le> t' \<and> t' < t" by linarith
        then show "\<bar>pettitt_U data t'\<bar> \<le> maxU"
          using "1.prems"(4) le by cases force+
      qed
      have c: "(cpi = - 1 \<and> maxU = 0) \<or>
         (1 \<le> cpi \<and> cpi < int (t + 1) \<and> \<bar>pettitt_U data (nat cpi)\<bar> = maxU \<and> 0 < maxU \<and>
          (\<forall>t'. 1 \<le> t' \<and> t' < nat cpi \<longrightarrow> \<bar>pettitt_U data t'\<bar> < maxU))"
        using "1.prems"(5) by force
      show ?thesis
        using "1.IH"(2)[OF True pettitt_i_U[symmetric] _ run _ _ b c] True le
        by (simp add: pettitt_i_U)
    qed
  qed
qed

lemma pettitt_t_result:
  assumes "1 \<le> length data"
  obtains m r where "pettitt_t data 1 0 (- 1) = (m, r)"
    and "\<forall>t'. 1 \<le> t' \<and> t' < length data \<longrightarrow> \<bar>pettitt_U data t'\<bar> \<le> m"
    and "(r = - 1 \<and> m = 0) \<or>
          (1 \<le> r \<and> r < int (length data) \<and> \<bar>pettitt_U data (nat r)\<bar> = m \<and> 0 < m \<and>
           (\<forall>t'. 1 \<le> t' \<and> t' < nat r \<longrightarrow> \<bar>pettitt_U data t'\<bar> < m))"
proof -
  obtain m r where mr: "pettitt_t data 1 0 (- 1) = (m, r)"
    by (cases "pettitt_t data 1 0 (- 1)")
  have "(\<forall>t'. 1 \<le> t' \<and> t' < length data \<longrightarrow> \<bar>pettitt_U data t'\<bar> \<le> m) \<and>
         ((r = - 1 \<and> m = 0) \<or>
          (1 \<le> r \<and> r < int (length data) \<and> \<bar>pettitt_U data (nat r)\<bar> = m \<and> 0 < m \<and>
           (\<forall>t'. 1 \<le> t' \<and> t' < nat r \<longrightarrow> \<bar>pettitt_U data t'\<bar> < m)))"
    by (rule pettitt_t_inv[OF mr _ assms]) auto
  with mr that show thesis by blast
qed

text \<open>
  Claim C1, as the code has it.  For \<open>data\<close> and \<open>dates\<close> of the same length \<open>n \<ge> 4\<close>:
  when some split \<open>t\<close> in \<open>1..n-1\<close> has \<open>U(t) \<noteq> 0\<close>, \<open>findPettittChangePoint\<close> returns
  \<open>dates[t]\<close> for the first split \<open>t\<close> that maximises \<open>|U(t)|\<close>; when \<open>U(t) = 0\<close> at every
  split, it returns \<open>null\<close>.
\<close>

theorem findPettittChangePoint_argmax:
  assumes "4 \<le> length data" and "length dates = length data"
  shows "((\<exists>t. 1 \<le> t \<and> t < length data \<and> pettitt_U data t \<noteq> 0) \<longrightarrow>
           (\<exists>t. 1 \<le> t \<and> t < length data \<and>
                findPettittChangePoint data dates = Str (dates ! t) \<and>
                (\<forall>t'. 1 \<le> t' \<and> t' < length data \<longrightarrow> \<bar>pettitt_U data t'\<bar> \<le> \<bar>pettitt_U data t\<bar>) \<and>
                (\<forall>t'. 1 \<le> t' \<and> t' < t \<longrightarrow> \<bar>pettitt_U data t'\<bar> < \<bar>pettitt_U data t\<bar>))) \<and>
         ((\<forall>t. 1 \<le> t \<and> t < length data \<longrightarrow> pettitt_U data t = 0) \<longrightarrow>
           findPettittChangePoint data dates = Null)"
proof -
  from assms(1) have "1 \<le> length data" by simp
  then obtain m r where mr: "pettitt_t data 1 0 (- 1) = (m, r)"
    and bound: "\<forall>t'. 1 \<le> t' \<and> t' < length data \<longrightarrow> \<bar>pettitt_U data t'\<bar> \<le> m"
    and idx: "(r = - 1 \<and> m = 0) \<or>
          (1 \<le> r \<and> r < int (length data) \<and> \<bar>pettitt_U data (nat r)\<bar> = m \<and> 0 < m \<and>
           (\<forall>t'. 1 \<le> t' \<and> t' < nat r \<longrightarrow> \<bar>pettitt_U data t'\<bar> < m))"
    by (rule pettitt_t_result)
  have res: "findPettittChangePoint data dates = (if r \<noteq> - 1 then date_at dates (nat r) else Null)"
    using assms(1) mr by (simp add: findPettittChangePoint_def Let_def)
  show ?thesis
  proof (intro conjI impI)
    assume "\<exists>t. 1 \<le> t \<and> t < length data \<and> pettitt_U data t \<noteq> 0"
    then obtain t0 where t0: "1 \<le> t0" "t0 < length data" "pettitt_U data t0 \<noteq> 0" by blast
    with bound have "0 < m" by fastforce
    with idx have r: "1 \<le> r" "r < int (length data)" "\<bar>pettitt_U data (nat r)\<bar> = m"
      "\<forall>t'. 1 \<le> t' \<and> t' < nat r \<longrightarrow> \<bar>pettitt_U data t'\<bar> < m"
      by auto
    have "findPettittChangePoint data dates = Str (dates ! nat r)"
      using res r(1,2) assms(2) by (simp add: date_at_def js_index_def)
    moreover have "1 \<le> nat r" "nat r < length data" using r(1,2) by auto
    ultimately show "\<exists>t. 1 \<le> t \<and> t < length data \<and>
                findPettittChangePoint data dates = Str (dates ! t) \<and>
                (\<forall>t'. 1 \<le> t' \<and> t' < length data \<longrightarrow> \<bar>pettitt_U data t'\<bar> \<le> \<bar>pettitt_U data t\<bar>) \<and>
                (\<forall>t'. 1 \<le> t' \<and> t' < t \<longrightarrow> \<bar>pettitt_U data t'\<bar> < \<bar>pettitt_U data t\<bar>)"
      using bound r(3,4) by (intro exI[of _ "nat r"]) simp
  next
    assume zero: "\<forall>t. 1 \<le> t \<and> t < length data \<longrightarrow> pettitt_U data t = 0"
    have "r = - 1"
    proof (rule ccontr)
      assume "r \<noteq> - 1"
      with idx have "1 \<le> r" "r < int (length data)" "\<bar>pettitt_U data (nat r)\<bar> = m" "0 < m"
        by auto
      moreover from this have "1 \<le> nat r \<and> nat r < length data" by auto
      with zero have "pettitt_U data (nat r) = 0" by blast
      ultimately show False by simp
    qed
    with res show "findPettittChangePoint data dates = Null" by simp
  qed
qed

lemma pettitt_U_constant:
  assumes "\<forall>x \<in> set data. x = c" and "t < length data"
  shows "pettitt_U data t = 0"
proof -
  have "sign (data ! i - data ! j) = 0" if "i < t" "j < length data" for i j
  proof -
    have "data ! i = c" "data ! j = c"
      using assms that by (simp_all add: nth_mem)
    then show ?thesis by (simp add: sign_def)
  qed
  then show ?thesis
    by (simp add: pettitt_U_def)
qed

theorem findPettittChangePoint_argmax_witness:
  "4 \<le> length [1, 2, 10, 11 :: real] \<and>
   length [''d0'', ''d1'', ''d2'', ''d3''] = length [1, 2, 10, 11 :: real] \<and>
   pettitt_U [1, 2, 10, 11] 2 \<noteq> 0 \<and>
   (\<exists>t. 1 \<le> t \<and> t < length [1, 2, 10, 11 :: real] \<and>
        findPettittChangePoint [1, 2, 10, 11] [''d0'', ''d1'', ''d2'', ''d3''] =
          Str ([''d0'', ''d1'', ''d2'', ''d3''] ! t) \<and>
        (\<forall>t'. 1 \<le> t' \<and> t' < length [1, 2, 10, 11 :: real] \<longrightarrow>
           \<bar>pettitt_U [1, 2, 10, 11] t'\<bar> \<le> \<bar>pettitt_U [1, 2, 10, 11] t\<bar>)) \<and>
   findPettittChangePoint [7, 7, 7, 7] [''d0'', ''d1'', ''d2'', ''d3''] = Null"
proof -
  have len: "4 \<le> length [1, 2, 10, 11 :: real]"
    and same: "length [''d0'', ''d1'', ''d2'', ''d3''] = length [1, 2, 10, 11 :: real]"
    and len7: "4 \<le> length [7, 7, 7, 7 :: real]"
    and same7: "length [''d0'', ''d1'', ''d2'', ''d3''] = length [7, 7, 7, 7 :: real]"
    by simp_all
  have u2: "pettitt_U [1, 2, 10, 11] 2 = - 4"
    by code_simp
  then have some: "\<exists>t. 1 \<le> t \<and> t < length [1, 2, 10, 11 :: real] \<and> pettitt_U [1, 2, 10, 11] t \<noteq> 0"
    by (intro exI[of _ 2]) simp
  have none: "\<forall>t. 1 \<le> t \<and> t < length [7, 7, 7, 7 :: real] \<longrightarrow> pettitt_U [7, 7, 7, 7] t = 0"
    using pettitt_U_constant[of "[7, 7, 7, 7]" 7] by simp
  have "\<exists>t. 1 \<le> t \<and> t < length [1, 2, 10, 11 :: real] \<and>
        findPettittChangePoint [1, 2, 10, 11] [''d0'', ''d1'', ''d2'', ''d3''] =
          Str ([''d0'', ''d1'', ''d2'', ''d3''] ! t) \<and>
        (\<forall>t'. 1 \<le> t' \<and> t' < length [1, 2, 10, 11 :: real] \<longrightarrow>
           \<bar>pettitt_U [1, 2, 10, 11] t'\<bar> \<le> \<bar>pettitt_U [1, 2, 10, 11] t\<bar>)"
    using findPettittChangePoint_argmax[OF len same] some by blast
  moreover have "findPettittChangePoint [7, 7, 7, 7] [''d0'', ''d1'', ''d2'', ''d3''] = Null"
    using findPettittChangePoint_argmax[OF len7 same7] none by blast
  moreover have "pettitt_U [1, 2, 10, 11] 2 \<noteq> 0"
    using u2 by simp
  ultimately show ?thesis
    using len same by blast
qed

theorem findPettittChangePoint_constant_counterexample:
  "length [5, 5, 5, 5 :: real] = 4 \<and> length [''d0'', ''d1'', ''d2'', ''d3''] = 4 \<and>
   findPettittChangePoint [5, 5, 5, 5] [''d0'', ''d1'', ''d2'', ''d3''] = Null \<and>
   findPettittChangePoint [5, 5, 5, 5] [''d0'', ''d1'', ''d2'', ''d3''] \<noteq> Str ''d1'' \<and>
   findPettittChangePoint [5, 5, 5, 5] [''d0'', ''d1'', ''d2'', ''d3''] \<noteq> Str ''d2'' \<and>
   findPettittChangePoint [5, 5, 5, 5] [''d0'', ''d1'', ''d2'', ''d3''] \<noteq> Str ''d3''"
proof -
  have "findPettittChangePoint [5, 5, 5, 5] [''d0'', ''d1'', ''d2'', ''d3''] = Null"
    by code_simp
  then show ?thesis by simp
qed

text \<open>
  Claim C7.  Whatever the values, a sequence of fewer than four elements has no change point:
  \<open>findPettittChangePoint\<close> returns \<open>null\<close>.
\<close>

theorem findPettittChangePoint_short:
  "length data < 4 \<Longrightarrow> findPettittChangePoint data dates = Null"
  by (simp add: findPettittChangePoint_def)

theorem findPettittChangePoint_short_witness:
  "length [1, 50, 2 :: real] < 4 \<and>
   findPettittChangePoint [1, 50, 2] [''d0'', ''d1'', ''d2''] = Null"
proof -
  have short: "length [1, 50, 2 :: real] < 4" by simp
  show ?thesis
    using short findPettittChangePoint_short[OF short, of "[''d0'', ''d1'', ''d2'']"] by simp
qed

section \<open>Proofs: control limits and EWMA\<close>

lemma foldl_add_sum_list: "foldl (\<lambda>a b. a + b) (a :: real) xs = a + sum_list xs"
  by (induction xs arbitrary: a) simp_all

lemma reduce_add_sum_list: "reduce_add xs = sum_list xs"
  by (simp add: reduce_add_def foldl_add_sum_list)

text \<open>
  Claim C4.  For a non-empty sequence \<open>calculateControlLimits\<close> returns the arithmetic mean,
  \<open>ucl = mean + 3 * sigma\<close> and \<open>lcl = max(0, mean - 3 * sigma)\<close>, where \<open>sigma\<close> is the
  population standard deviation (divisor \<open>n\<close>); for the empty sequence it returns
  \<open>mean = 0\<close>, \<open>ucl = 0\<close>, \<open>lcl = 0\<close>.
\<close>

theorem calculateControlLimits_spec:
  "(data \<noteq> [] \<longrightarrow>
      mean (calculateControlLimits data) = arith_mean data \<and>
      ucl (calculateControlLimits data) = arith_mean data + 3 * population_sd data \<and>
      lcl (calculateControlLimits data) = max 0 (arith_mean data - 3 * population_sd data)) \<and>
   calculateControlLimits [] = \<lparr>mean = 0, ucl = 0, lcl = 0\<rparr>"
  by (simp add: calculateControlLimits_def Let_def reduce_add_sum_list arith_mean_def
      population_sd_def comp_def)

theorem calculateControlLimits_spec_witness:
  "[2, 4, 4, 4, 5, 5, 7, 9 :: real] \<noteq> [] \<and>
   arith_mean [2, 4, 4, 4, 5, 5, 7, 9] = 5 \<and>
   population_sd [2, 4, 4, 4, 5, 5, 7, 9] = 2 \<and>
   mean (calculateControlLimits [2, 4, 4, 4, 5, 5, 7, 9]) = 5 \<and>
   ucl (calculateControlLimits [2, 4, 4, 4, 5, 5, 7, 9]) = 11 \<and>
   lcl (calculateControlLimits [2, 4, 4, 4, 5, 5, 7, 9]) = 0"
proof -
  have ne: "[2, 4, 4, 4, 5, 5, 7, 9 :: real] \<noteq> []" by simp
  have m: "arith_mean [2, 4, 4, 4, 5, 5, 7, 9] = 5"
    by (simp add: arith_mean_def)
  have "population_sd [2, 4, 4, 4, 5, 5, 7, 9] = sqrt (2 ^ 2)"
    unfolding population_sd_def m by (simp add: power2_eq_square)
  then have sd: "population_sd [2, 4, 4, 4, 5, 5, 7, 9] = 2"
    by simp
  show ?thesis
    using ne m sd calculateControlLimits_spec[of "[2, 4, 4, 4, 5, 5, 7, 9]"] by simp
qed

lemma ewma_loop_inv:
  assumes "length ewma = i" "1 \<le> i" "i \<le> length data"
    and "ewma ! 0 = data ! 0"
    and "\<forall>k. 1 \<le> k \<and> k < i \<longrightarrow> ewma ! k = lambda * data ! k + (1 - lambda) * ewma ! (k - 1)"
  shows "length (ewma_loop data lambda i ewma) = length data \<and>
         ewma_loop data lambda i ewma ! 0 = data ! 0 \<and>
         (\<forall>k. 1 \<le> k \<and> k < length data \<longrightarrow>
            ewma_loop data lambda i ewma ! k =
              lambda * data ! k + (1 - lambda) * ewma_loop data lambda i ewma ! (k - 1))"
  using assms
proof (induction data lambda i ewma rule: ewma_loop.induct)
  case (1 data lambda i ewma)
  show ?case
  proof (cases "i < length data")
    case False
    with "1.prems"(3) have tn: "i = length data" by simp
    have stop: "ewma_loop data lambda i ewma = ewma"
      using False by (subst ewma_loop.simps) simp
    show ?thesis
      unfolding stop using "1.prems"(1,4,5) unfolding tn by blast
  next
    case True
    let ?e = "ewma @ [lambda * data ! i + (1 - lambda) * ewma ! (i - 1)]"
    have unfold: "ewma_loop data lambda i ewma = ewma_loop data lambda (i + 1) ?e"
      using True by (subst ewma_loop.simps) simp
    have a: "length ?e = i + 1" using "1.prems"(1) by simp
    have b: "?e ! 0 = data ! 0"
      using "1.prems"(1,2,4) by (simp add: nth_append)
    have c: "\<forall>k. 1 \<le> k \<and> k < i + 1 \<longrightarrow> ?e ! k = lambda * data ! k + (1 - lambda) * ?e ! (k - 1)"
    proof (intro allI impI)
      fix k assume k: "1 \<le> k \<and> k < i + 1"
      show "?e ! k = lambda * data ! k + (1 - lambda) * ?e ! (k - 1)"
      proof (cases "k = i")
        case True
        then show ?thesis using "1.prems"(1,2) by (simp add: nth_append)
      next
        case False
        with k have ki: "k < i" by simp
        with k "1.prems"(5) have "ewma ! k = lambda * data ! k + (1 - lambda) * ewma ! (k - 1)"
          by blast
        moreover have "k - 1 < i" using ki by simp
        ultimately show ?thesis using ki "1.prems"(1) by (simp add: nth_append)
      qed
    qed
    show ?thesis
      unfolding unfold
      by (rule "1.IH"[OF True a _ _ b c]) (use True in simp_all)
  qed
qed

lemma calculateEWMA_rec:
  "length (calculateEWMA data lambda) = length data \<and>
   (data \<noteq> [] \<longrightarrow> calculateEWMA data lambda ! 0 = data ! 0) \<and>
   (\<forall>i. 1 \<le> i \<and> i < length data \<longrightarrow>
      calculateEWMA data lambda ! i =
        lambda * data ! i + (1 - lambda) * calculateEWMA data lambda ! (i - 1))"
proof (cases "data = []")
  case True
  then show ?thesis by (simp add: calculateEWMA_def)
next
  case False
  then have eq: "calculateEWMA data lambda = ewma_loop data lambda 1 [data ! 0]"
    by (simp add: calculateEWMA_def)
  have "1 \<le> length data" using False by (cases data) simp_all
  then have "length (ewma_loop data lambda 1 [data ! 0]) = length data \<and>
         ewma_loop data lambda 1 [data ! 0] ! 0 = data ! 0 \<and>
         (\<forall>k. 1 \<le> k \<and> k < length data \<longrightarrow>
            ewma_loop data lambda 1 [data ! 0] ! k =
              lambda * data ! k + (1 - lambda) * ewma_loop data lambda 1 [data ! 0] ! (k - 1))"
    by (intro ewma_loop_inv) simp_all
  then show ?thesis
    unfolding eq by blast
qed

lemma calculateEWMA_length: "length (calculateEWMA data lambda) = length data"
  using calculateEWMA_rec[of data lambda] by blast

lemma calculateEWMA_head: "data \<noteq> [] \<Longrightarrow> calculateEWMA data lambda ! 0 = data ! 0"
  using calculateEWMA_rec[of data lambda] by blast

lemma calculateEWMA_step:
  "1 \<le> i \<Longrightarrow> i < length data \<Longrightarrow>
   calculateEWMA data lambda ! i =
     lambda * data ! i + (1 - lambda) * calculateEWMA data lambda ! (i - 1)"
  using calculateEWMA_rec[of data lambda] by blast

text \<open>
  Claim C5.  For every sequence and smoothing factor (in particular every \<open>lambda\<close> in (0,1]),
  \<open>calculateEWMA\<close> returns a sequence of the same length whose first element is the first
  input value and whose element at each later position \<open>i\<close> is
  \<open>lambda * input[i] + (1 - lambda) * output[i-1]\<close>; the empty input gives the empty output.
\<close>

theorem calculateEWMA_spec:
  "length (calculateEWMA data lambda) = length data \<and>
   (data \<noteq> [] \<longrightarrow> calculateEWMA data lambda ! 0 = data ! 0) \<and>
   (\<forall>i. 1 \<le> i \<and> i < length data \<longrightarrow>
      calculateEWMA data lambda ! i =
        lambda * data ! i + (1 - lambda) * calculateEWMA data lambda ! (i - 1)) \<and>
   calculateEWMA [] lambda = []"
proof -
  have "calculateEWMA [] lambda = []"
    by (simp add: calculateEWMA_def)
  with calculateEWMA_rec[of data lambda] show ?thesis by blast
qed

theorem calculateEWMA_spec_witness:
  "[10, 20 :: real] \<noteq> [] \<and> (1 :: nat) \<le> 1 \<and> 1 < length [10, 20 :: real] \<and>
   length (calculateEWMA [10, 20] 0.3) = 2 \<and>
   calculateEWMA [10, 20] 0.3 ! 0 = 10 \<and>
   calculateEWMA [10, 20] 0.3 ! 1 = 13"
proof -
  have ne: "[10, 20 :: real] \<noteq> []" and one: "(1 :: nat) \<le> 1 \<and> 1 < length [10, 20 :: real]"
    by simp_all
  note spec = calculateEWMA_spec[of "[10, 20]" "0.3"]
  have l: "length (calculateEWMA [10, 20] 0.3) = length [10, 20 :: real]"
    using spec by blast
  have z: "calculateEWMA [10, 20] 0.3 ! 0 = [10, 20] ! 0"
    using spec ne by blast
  have "calculateEWMA [10, 20] 0.3 ! 1 =
      0.3 * [10, 20] ! 1 + (1 - 0.3) * calculateEWMA [10, 20] 0.3 ! (1 - 1)"
    using spec one by blast
  with z have "calculateEWMA [10, 20] 0.3 ! 1 = 13" by simp
  with l z one show ?thesis by simp
qed

text \<open>
  Claim C6.  With \<open>lambda = 1\<close> \<open>calculateEWMA\<close> is the identity, so feeding an EWMA output
  back through \<open>calculateEWMA\<close> with \<open>lambda = 1\<close> returns it unchanged.
\<close>

theorem calculateEWMA_lambda_one:
  "calculateEWMA x 1 = x \<and> calculateEWMA (calculateEWMA x lambda) 1 = calculateEWMA x lambda"
proof -
  have ident: "calculateEWMA y 1 = y" for y
  proof (rule nth_equalityI)
    show "length (calculateEWMA y 1) = length y"
      by (rule calculateEWMA_length)
  next
    fix i assume "i < length (calculateEWMA y 1)"
    then have i: "i < length y" by (simp add: calculateEWMA_length)
    show "calculateEWMA y 1 ! i = y ! i"
    proof (cases "i = 0")
      case True
      with i have "y \<noteq> []" by auto
      with True show ?thesis by (simp add: calculateEWMA_head)
    next
      case False
      with i have "1 \<le> i" by simp
      then have "calculateEWMA y 1 ! i = 1 * y ! i + (1 - 1) * calculateEWMA y 1 ! (i - 1)"
        using i by (rule calculateEWMA_step)
      then show ?thesis by simp
    qed
  qed
  show ?thesis by (simp add: ident)
qed

section \<open>Proofs: the nearest centroid\<close>

lemma nearest_loop_spec:
  "(nearest_loop s cs idx minDist k = k \<and>
      (\<forall>c \<in> set cs. \<not> (case minDist of None \<Rightarrow> True | Some m \<Rightarrow> distance s c < m))) \<or>
   (\<exists>p < length cs. nearest_loop s cs idx minDist k = idx + p \<and>
      (case minDist of None \<Rightarrow> True | Some m \<Rightarrow> distance s (cs ! p) < m) \<and>
      (\<forall>j < length cs. distance s (cs ! p) \<le> distance s (cs ! j)) \<and>
      (\<forall>j < p. distance s (cs ! p) < distance s (cs ! j)))"
proof (induction cs arbitrary: idx minDist k)
  case Nil
  then show ?case by simp
next
  case (Cons c cs)
  let ?d = "distance s c"
  show ?case
  proof (cases "case minDist of None \<Rightarrow> True | Some m \<Rightarrow> ?d < m")
    case True
    then have run: "nearest_loop s (c # cs) idx minDist k = nearest_loop s cs (idx + 1) (Some ?d) idx"
      by (simp add: Let_def)
    from Cons.IH[of "idx + 1" "Some ?d" idx]
    consider (stay) "nearest_loop s cs (idx + 1) (Some ?d) idx = idx"
        "\<forall>c' \<in> set cs. \<not> distance s c' < ?d"
      | (move) p where "p < length cs" "nearest_loop s cs (idx + 1) (Some ?d) idx = idx + 1 + p"
        "distance s (cs ! p) < ?d"
        "\<forall>j < length cs. distance s (cs ! p) \<le> distance s (cs ! j)"
        "\<forall>j < p. distance s (cs ! p) < distance s (cs ! j)"
      by auto
    then show ?thesis
    proof cases
      case stay
      have "\<forall>j < length (c # cs). distance s ((c # cs) ! 0) \<le> distance s ((c # cs) ! j)"
      proof (intro allI impI)
        fix j assume "j < length (c # cs)"
        then show "distance s ((c # cs) ! 0) \<le> distance s ((c # cs) ! j)"
          using stay(2) by (cases j) (auto simp: not_less)
      qed
      then show ?thesis
        using run stay(1) True by (intro disjI2 exI[of _ 0]) (simp split: option.splits)
    next
      case move
      have below: "case minDist of None \<Rightarrow> True | Some m \<Rightarrow> distance s (cs ! p) < m"
        using True move(3) by (cases minDist) auto
      have all: "\<forall>j < length (c # cs). distance s ((c # cs) ! Suc p) \<le> distance s ((c # cs) ! j)"
      proof (intro allI impI)
        fix j assume "j < length (c # cs)"
        then show "distance s ((c # cs) ! Suc p) \<le> distance s ((c # cs) ! j)"
          using move(3,4) by (cases j) auto
      qed
      have first: "\<forall>j < Suc p. distance s ((c # cs) ! Suc p) < distance s ((c # cs) ! j)"
      proof (intro allI impI)
        fix j assume "j < Suc p"
        then show "distance s ((c # cs) ! Suc p) < distance s ((c # cs) ! j)"
          using move(3,5) by (cases j) auto
      qed
      show ?thesis
        using run move(1,2) below all first
        by (intro disjI2 exI[of _ "Suc p"]) (simp split: option.splits)
    qed
  next
    case False
    then obtain m where m: "minDist = Some m" "m \<le> ?d"
      by (cases minDist) (auto simp: not_less)
    from False have run: "nearest_loop s (c # cs) idx minDist k = nearest_loop s cs (idx + 1) minDist k"
      by (simp add: Let_def)
    from Cons.IH[of "idx + 1" minDist k]
    consider (stay) "nearest_loop s cs (idx + 1) minDist k = k"
        "\<forall>c' \<in> set cs. \<not> distance s c' < m"
      | (move) p where "p < length cs" "nearest_loop s cs (idx + 1) minDist k = idx + 1 + p"
        "distance s (cs ! p) < m"
        "\<forall>j < length cs. distance s (cs ! p) \<le> distance s (cs ! j)"
        "\<forall>j < p. distance s (cs ! p) < distance s (cs ! j)"
      using m(1) by auto
    then show ?thesis
    proof cases
      case stay
      then show ?thesis using run m by auto
    next
      case move
      have lt: "distance s (cs ! p) < ?d" using move(3) m(2) by simp
      have all: "\<forall>j < length (c # cs). distance s ((c # cs) ! Suc p) \<le> distance s ((c # cs) ! j)"
      proof (intro allI impI)
        fix j assume "j < length (c # cs)"
        then show "distance s ((c # cs) ! Suc p) \<le> distance s ((c # cs) ! j)"
          using lt move(4) by (cases j) auto
      qed
      have first: "\<forall>j < Suc p. distance s ((c # cs) ! Suc p) < distance s ((c # cs) ! j)"
      proof (intro allI impI)
        fix j assume "j < Suc p"
        then show "distance s ((c # cs) ! Suc p) < distance s ((c # cs) ! j)"
          using lt move(5) by (cases j) auto
      qed
      show ?thesis
        using run move(1,2,3) m(1) all first
        by (intro disjI2 exI[of _ "Suc p"]) (simp split: option.splits)
    qed
  qed
qed

lemma nearestCentroid_spec:
  assumes "centroids \<noteq> []"
  shows "nearestCentroid s centroids < length centroids \<and>
         (\<forall>j < length centroids.
            distance s (centroids ! nearestCentroid s centroids) \<le> distance s (centroids ! j)) \<and>
         (\<forall>j < nearestCentroid s centroids.
            distance s (centroids ! nearestCentroid s centroids) < distance s (centroids ! j))"
proof -
  from assms obtain c where "c \<in> set centroids" by (cases centroids) auto
  then have "\<not> (\<forall>c \<in> set centroids. \<not> (case None :: real option of None \<Rightarrow> True | Some m \<Rightarrow> distance s c < m))"
    by auto
  with nearest_loop_spec[of s centroids 0 None 0]
  obtain p where "p < length centroids" "nearest_loop s centroids 0 None 0 = 0 + p"
      "\<forall>j < length centroids. distance s (centroids ! p) \<le> distance s (centroids ! j)"
      "\<forall>j < p. distance s (centroids ! p) < distance s (centroids ! j)"
    by blast
  then show ?thesis by (simp add: nearestCentroid_def)
qed

lemma nearestCentroid_Nil: "nearestCentroid s [] = 0"
  by (simp add: nearestCentroid_def)

section \<open>Proofs: the k-means loop does not fail\<close>

lemma assign_sample_ok:
  assumes "centroids \<noteq> []" "length groups = length centroids"
  shows "\<exists>groups'. assign_sample centroids (Inr groups) s = Inr groups' \<and>
                   length groups' = length centroids"
proof -
  have "nearestCentroid s centroids < length groups"
    using nearestCentroid_spec[OF assms(1), of s] assms(2) by simp
  then show ?thesis
    using assms(2) by (simp add: assign_sample_def Let_def)
qed

lemma assign_all_ok:
  assumes "centroids \<noteq> []" "length groups = length centroids"
  shows "\<exists>groups'. foldl (assign_sample centroids) (Inr groups) samples = Inr groups' \<and>
                   length groups' = length centroids"
  using assms(2)
proof (induction samples arbitrary: groups)
  case Nil
  then show ?case by simp
next
  case (Cons s samples)
  from assign_sample_ok[OF assms(1) Cons.prems, of s]
  obtain g where g: "assign_sample centroids (Inr groups) s = Inr g" "length g = length centroids"
    by blast
  from Cons.IH[OF g(2)] show ?case by (simp add: g(1))
qed

lemma length_recompute: "length (recompute centroids groups) = length groups"
  by (simp add: recompute_def)

lemma kmeans_iteration_ok:
  assumes "1 \<le> count" "length centroids = count"
  shows "\<exists>cs. kmeans_iteration samples count centroids = Inr cs \<and> length cs = count"
proof -
  have ne: "centroids \<noteq> []" using assms by auto
  have "length (replicate count ([] :: WaterSample list)) = length centroids"
    using assms(2) by simp
  from assign_all_ok[OF ne this, of samples]
  obtain g where "foldl (assign_sample centroids) (Inr (replicate count [])) samples = Inr g"
    "length g = length centroids" by blast
  then show ?thesis
    using assms(2) by (simp add: kmeans_iteration_def length_recompute)
qed

lemma kmeans_loop_ok:
  assumes "1 \<le> count" "length centroids = count"
  shows "\<exists>cs. kmeans_loop samples count iter centroids = Inr cs \<and> length cs = count"
  using assms
proof (induction samples count iter centroids rule: kmeans_loop.induct)
  case (1 samples count iter centroids)
  show ?case
  proof (cases "iter < 10")
    case False
    then have "kmeans_loop samples count iter centroids = Inr centroids"
      by (subst kmeans_loop.simps) simp
    with "1.prems" show ?thesis by simp
  next
    case True
    from kmeans_iteration_ok[OF "1.prems", of samples]
    obtain cs where cs: "kmeans_iteration samples count centroids = Inr cs" "length cs = count"
      by blast
    have "kmeans_loop samples count iter centroids = kmeans_loop samples count (iter + 1) cs"
      using True cs(1) by (subst kmeans_loop.simps) simp
    with "1.IH"[OF True cs(1) "1.prems"(1) cs(2)] show ?thesis by simp
  qed
qed

lemma length_seed_centroids:
  "count \<le> length samples \<Longrightarrow> length (seed_centroids samples count) = count"
  by (simp add: seed_centroids_def)

lemma computeCentroids_ok:
  assumes "count \<le> length samples" "1 \<le> count"
  shows "\<exists>cs. computeCentroids samples count algo = Inr cs \<and> length cs = count"
proof (cases algo)
  case Simple
  then show ?thesis by (simp add: computeCentroids_def simple_centroids_def)
next
  case KMeans
  from kmeans_loop_ok[OF assms(2) length_seed_centroids[OF assms(1)], of samples 0]
  show ?thesis using KMeans by (simp add: computeCentroids_def)
qed

lemma sortCentroids_props:
  "length (sortCentroids cs) = length cs \<and> set (sortCentroids cs) = set cs \<and>
   sorted (map magnitude (sortCentroids cs))"
  by (simp add: sortCentroids_def)

lemma sortCentroids_first:
  assumes "c \<in> set (sortCentroids cs)"
  shows "magnitude (sortCentroids cs ! 0) \<le> magnitude c"
proof -
  from assms obtain i where i: "i < length (sortCentroids cs)" "sortCentroids cs ! i = c"
    by (auto simp: in_set_conv_nth)
  have "sorted (map magnitude (sortCentroids cs))"
    by (simp add: sortCentroids_props)
  then have "map magnitude (sortCentroids cs) ! 0 \<le> map magnitude (sortCentroids cs) ! i"
    using i(1) by (intro sorted_nth_mono) simp_all
  moreover have "0 < length (sortCentroids cs)" using i(1) by (cases "sortCentroids cs") auto
  ultimately show ?thesis using i by simp
qed

lemma length_currentClusterLabels: "length (currentClusterLabels count) = count"
  by (simp add: currentClusterLabels_def DEFAULT_CLUSTER_LABELS_def)

text \<open>
  Claim C8.  Given fewer samples than the requested cluster count, \<open>clusterDataPerPeriod\<close> does
  not fail: it returns every sample with the label of index 0, the lowest severity, and
  every other field as it was.
\<close>

theorem clusterDataPerPeriod_too_few:
  assumes "length samples < count"
  shows "clusterDataPerPeriod (currentClusterLabels count) samples count algo =
           Inr (map (\<lambda>s. s\<lparr>cluster := Some (currentClusterLabels count ! 0)\<rparr>) samples)"
proof -
  have "0 < length (currentClusterLabels count)"
    using assms by (simp add: length_currentClusterLabels)
  then have "js_index (currentClusterLabels count) 0 = Some (currentClusterLabels count ! 0)"
    by (simp add: js_index_def)
  with assms show ?thesis
    by (simp add: clusterDataPerPeriod_def)
qed

theorem clusterDataPerPeriod_too_few_witness:
  "length [\<lparr>sample_id = ''W1'', conductivity = 420, nitrate = 12, timestamp = ''p1.xlsx'',
             location = None, cluster = None, clusterColor = None\<rparr>,
           \<lparr>sample_id = ''W2'', conductivity = 910, nitrate = 31, timestamp = ''p1.xlsx'',
             location = None, cluster = None, clusterColor = None\<rparr>] < (5 :: nat) \<and>
   clusterDataPerPeriod (currentClusterLabels 5)
     [\<lparr>sample_id = ''W1'', conductivity = 420, nitrate = 12, timestamp = ''p1.xlsx'',
        location = None, cluster = None, clusterColor = None\<rparr>,
      \<lparr>sample_id = ''W2'', conductivity = 910, nitrate = 31, timestamp = ''p1.xlsx'',
        location = None, cluster = None, clusterColor = None\<rparr>] 5 KMeans =
   Inr [\<lparr>sample_id = ''W1'', conductivity = 420, nitrate = 12, timestamp = ''p1.xlsx'',
          location = None, cluster = Some ''excellent'', clusterColor = None\<rparr>,
        \<lparr>sample_id = ''W2'', conductivity = 910, nitrate = 31, timestamp = ''p1.xlsx'',
          location = None, cluster = Some ''excellent'', clusterColor = None\<rparr>]"
proof -
  let ?samples = "[\<lparr>sample_id = ''W1'', conductivity = 420, nitrate = 12, timestamp = ''p1.xlsx'',
             location = None, cluster = None, clusterColor = None\<rparr>,
           \<lparr>sample_id = ''W2'', conductivity = 910, nitrate = 31, timestamp = ''p1.xlsx'',
             location = None, cluster = None, clusterColor = None\<rparr>]"
  have few: "length ?samples < (5 :: nat)" by simp
  have first: "currentClusterLabels 5 ! 0 = ''excellent''"
    by (simp add: currentClusterLabels_def DEFAULT_CLUSTER_LABELS_def)
  show ?thesis
    using few clusterDataPerPeriod_too_few[OF few, of KMeans] by (simp add: first)
qed

section \<open>Proofs: sorted centroids and labels\<close>

lemma count_list_insort_key:
  "count_list (insort_key f x xs) y = count_list (x # xs) y"
  by (induction xs) auto

lemma count_list_sort_key: "count_list (sort_key f xs) y = count_list xs y"
  by (induction xs) (simp_all add: count_list_insort_key)

text \<open>
  Claim C2.  For either algorithm, a cluster count of at least 2 and at least that many
  samples, the centroids are computed without failure and then sorted ascending by
  \<open>ec + no3\<close>: the sorted list is a permutation of the computed one, its element of index 0
  has the least sum, and every sample gets the label whose index is that of a sorted
  centroid nearest to it (Euclidean distance on conductivity and nitrate), all its other
  fields unchanged.
\<close>

theorem clusterDataPerPeriod_sorted_nearest:
  assumes "count \<le> length samples" and "2 \<le> count"
  shows "\<exists>cs. computeCentroids samples count algo = Inr cs \<and>
           length (sortCentroids cs) = count \<and>
           (\<forall>c. count_list (sortCentroids cs) c = count_list cs c) \<and>
           sorted (map magnitude (sortCentroids cs)) \<and>
           (\<forall>c \<in> set (sortCentroids cs). magnitude (sortCentroids cs ! 0) \<le> magnitude c) \<and>
           (\<exists>res. clusterDataPerPeriod (currentClusterLabels count) samples count algo = Inr res \<and>
              length res = length samples \<and>
              (\<forall>i < length samples. \<exists>idx < count.
                 res ! i = (samples ! i)\<lparr>cluster := Some (currentClusterLabels count ! idx)\<rparr> \<and>
                 (\<forall>j < count. distance (samples ! i) (sortCentroids cs ! idx)
                                \<le> distance (samples ! i) (sortCentroids cs ! j))))"
proof -
  from assms(2) have one: "1 \<le> count" by simp
  from computeCentroids_ok[OF assms(1) one, of algo]
  obtain cs where cs: "computeCentroids samples count algo = Inr cs" "length cs = count"
    by blast
  let ?sc = "sortCentroids cs"
  let ?labels = "currentClusterLabels count"
  have len: "length ?sc = count" using cs(2) by (simp add: sortCentroids_props)
  then have ne: "?sc \<noteq> []" using one by auto
  have perm: "\<forall>c. count_list ?sc c = count_list cs c"
    by (simp add: sortCentroids_def count_list_sort_key)
  have srt: "sorted (map magnitude ?sc)" by (simp add: sortCentroids_props)
  have low: "\<forall>c \<in> set ?sc. magnitude (?sc ! 0) \<le> magnitude c"
    using sortCentroids_first by blast
  have res: "clusterDataPerPeriod ?labels samples count algo = Inr (map (label_sample ?labels ?sc) samples)"
    using assms(1) cs(1) by (simp add: clusterDataPerPeriod_def)
  have each: "\<exists>idx < count.
        map (label_sample ?labels ?sc) samples ! i = (samples ! i)\<lparr>cluster := Some (?labels ! idx)\<rparr> \<and>
        (\<forall>j < count. distance (samples ! i) (?sc ! idx) \<le> distance (samples ! i) (?sc ! j))"
    if i: "i < length samples" for i
  proof -
    let ?idx = "nearestCentroid (samples ! i) ?sc"
    have near: "?idx < count"
      "\<forall>j < count. distance (samples ! i) (?sc ! ?idx) \<le> distance (samples ! i) (?sc ! j)"
      using nearestCentroid_spec[OF ne, of "samples ! i"] len by simp_all
    have "js_index ?labels ?idx = Some (?labels ! ?idx)"
      using near(1) by (simp add: js_index_def length_currentClusterLabels)
    then have "map (label_sample ?labels ?sc) samples ! i = (samples ! i)\<lparr>cluster := Some (?labels ! ?idx)\<rparr>"
      using i by (simp add: label_sample_def)
    with near show ?thesis by blast
  qed
  show ?thesis
    using cs(1) len perm srt low res each by (intro exI[of _ cs] conjI exI[of _ "map (label_sample ?labels ?sc) samples"]) simp_all
qed

theorem clusterDataPerPeriod_sorted_nearest_witness:
  "(3 :: nat) \<le> length
     [\<lparr>sample_id = ''W1'', conductivity = 100, nitrate = 1, timestamp = ''p1'',
        location = None, cluster = None, clusterColor = None\<rparr>,
      \<lparr>sample_id = ''W2'', conductivity = 900, nitrate = 20, timestamp = ''p1'',
        location = None, cluster = None, clusterColor = None\<rparr>,
      \<lparr>sample_id = ''W3'', conductivity = 500, nitrate = 11, timestamp = ''p1'',
        location = None, cluster = None, clusterColor = None\<rparr>] \<and>
   (2 :: nat) \<le> 3 \<and>
   computeCentroids
     [\<lparr>sample_id = ''W1'', conductivity = 100, nitrate = 1, timestamp = ''p1'',
        location = None, cluster = None, clusterColor = None\<rparr>,
      \<lparr>sample_id = ''W2'', conductivity = 900, nitrate = 20, timestamp = ''p1'',
        location = None, cluster = None, clusterColor = None\<rparr>,
      \<lparr>sample_id = ''W3'', conductivity = 500, nitrate = 11, timestamp = ''p1'',
        location = None, cluster = None, clusterColor = None\<rparr>] 3 Simple =
     Inr [\<lparr>ec = 0, no3 = 0\<rparr>, \<lparr>ec = 450, no3 = 10\<rparr>, \<lparr>ec = 900, no3 = 20\<rparr>] \<and>
   (\<exists>res. clusterDataPerPeriod (currentClusterLabels 3)
     [\<lparr>sample_id = ''W1'', conductivity = 100, nitrate = 1, timestamp = ''p1'',
        location = None, cluster = None, clusterColor = None\<rparr>,
      \<lparr>sample_id = ''W2'', conductivity = 900, nitrate = 20, timestamp = ''p1'',
        location = None, cluster = None, clusterColor = None\<rparr>,
      \<lparr>sample_id = ''W3'', conductivity = 500, nitrate = 11, timestamp = ''p1'',
        location = None, cluster = None, clusterColor = None\<rparr>] 3 Simple = Inr res \<and>
     map cluster res = [Some ''group 1'', Some ''group 3'', Some ''group 2'']) \<and>
   (\<exists>cs. computeCentroids
     [\<lparr>sample_id = ''W1'', conductivity = 100, nitrate = 1, timestamp = ''p1'',
        location = None, cluster = None, clusterColor = None\<rparr>,
      \<lparr>sample_id = ''W2'', conductivity = 900, nitrate = 20, timestamp = ''p1'',
        location = None, cluster = None, clusterColor = None\<rparr>,
      \<lparr>sample_id = ''W3'', conductivity = 500, nitrate = 11, timestamp = ''p1'',
        location = None, cluster = None, clusterColor = None\<rparr>] 3 Simple = Inr cs \<and>
     sorted (map magnitude (sortCentroids cs)) \<and>
     (\<forall>c \<in> set (sortCentroids cs). magnitude (sortCentroids cs ! 0) \<le> magnitude c))"
proof -
  let ?S = "[\<lparr>sample_id = ''W1'', conductivity = 100, nitrate = 1, timestamp = ''p1'',
        location = None, cluster = None, clusterColor = None\<rparr>,
      \<lparr>sample_id = ''W2'', conductivity = 900, nitrate = 20, timestamp = ''p1'',
        location = None, cluster = None, clusterColor = None\<rparr>,
      \<lparr>sample_id = ''W3'', conductivity = 500, nitrate = 11, timestamp = ''p1'',
        location = None, cluster = None, clusterColor = None\<rparr>]"
  have enough: "(3 :: nat) \<le> length ?S" and two: "(2 :: nat) \<le> 3"
    by simp_all
  have labels: "currentClusterLabels 3 = [''group 1'', ''group 2'', ''group 3'']"
    by code_simp
  have cen: "computeCentroids ?S 3 Simple =
      Inr [\<lparr>ec = 0, no3 = 0\<rparr>, \<lparr>ec = 450, no3 = 10\<rparr>, \<lparr>ec = 900, no3 = 20\<rparr>]"
    by (simp add: computeCentroids_def Math_max_def simple_centroids_def upt_conv_Cons)
  have run: "clusterDataPerPeriod (currentClusterLabels 3) ?S 3 Simple =
      Inr (map (label_sample (currentClusterLabels 3)
        (sortCentroids [\<lparr>ec = 0, no3 = 0\<rparr>, \<lparr>ec = 450, no3 = 10\<rparr>, \<lparr>ec = 900, no3 = 20\<rparr>])) ?S)"
    by (simp add: clusterDataPerPeriod_def cen)
  have lab: "map cluster (map (label_sample (currentClusterLabels 3)
        (sortCentroids [\<lparr>ec = 0, no3 = 0\<rparr>, \<lparr>ec = 450, no3 = 10\<rparr>, \<lparr>ec = 900, no3 = 20\<rparr>])) ?S)
      = [Some ''group 1'', Some ''group 3'', Some ''group 2'']"
    by (simp add: labels sortCentroids_def magnitude_def label_sample_def
        nearestCentroid_def distance_def js_index_def)
  from clusterDataPerPeriod_sorted_nearest[OF enough two, of Simple]
  obtain cs where "computeCentroids ?S 3 Simple = Inr cs"
    "sorted (map magnitude (sortCentroids cs))"
    "\<forall>c \<in> set (sortCentroids cs). magnitude (sortCentroids cs ! 0) \<le> magnitude c"
    by blast
  then have "\<exists>cs. computeCentroids ?S 3 Simple = Inr cs \<and>
     sorted (map magnitude (sortCentroids cs)) \<and>
     (\<forall>c \<in> set (sortCentroids cs). magnitude (sortCentroids cs ! 0) \<le> magnitude c)"
    by blast
  with enough two cen run lab show ?thesis by simp
qed

section \<open>Proofs: clustering is a function of the measured values\<close>

lemma distance_cong: "same_measurements a b \<Longrightarrow> distance a c = distance b c"
  by (simp add: same_measurements_def distance_def)

lemma nearest_loop_cong:
  "same_measurements a b \<Longrightarrow> nearest_loop a cs idx minDist k = nearest_loop b cs idx minDist k"
  by (induction cs arbitrary: idx minDist k) (simp_all add: distance_cong[of a b] Let_def)

lemma nearestCentroid_cong:
  "same_measurements a b \<Longrightarrow> nearestCentroid a cs = nearestCentroid b cs"
  by (simp add: nearestCentroid_def nearest_loop_cong)

lemma assign_sample_rel:
  assumes "rel_sum (=) (list_all2 (list_all2 same_measurements)) acc1 acc2"
    and "same_measurements a b"
  shows "rel_sum (=) (list_all2 (list_all2 same_measurements))
           (assign_sample cs acc1 a) (assign_sample cs acc2 b)"
proof (cases acc1)
  case (Inl e)
  with assms(1) have "acc2 = Inl e" by (cases acc2) simp_all
  with Inl show ?thesis by (simp add: assign_sample_def)
next
  case (Inr g1)
  with assms(1) obtain g2 where g2: "acc2 = Inr g2"
    and rel: "list_all2 (list_all2 same_measurements) g1 g2"
    by (cases acc2) simp_all
  let ?k = "nearestCentroid a cs"
  have k: "nearestCentroid b cs = ?k"
    using assms(2) by (simp add: nearestCentroid_cong)
  have len: "length g1 = length g2"
    using rel by (rule list_all2_lengthD)
  show ?thesis
  proof (cases "?k < length g1")
    case False
    then show ?thesis using Inr g2 k len by (simp add: assign_sample_def Let_def)
  next
    case True
    have "list_all2 same_measurements (g1 ! ?k) (g2 ! ?k)"
      using rel True by (rule list_all2_nthD)
    then have "list_all2 same_measurements (g1 ! ?k @ [a]) (g2 ! ?k @ [b])"
      using assms(2) by (intro list_all2_appendI) simp_all
    with rel have "list_all2 (list_all2 same_measurements)
        (g1[?k := g1 ! ?k @ [a]]) (g2[?k := g2 ! ?k @ [b]])"
      by (rule list_all2_update_cong)
    then show ?thesis using Inr g2 k len True by (simp add: assign_sample_def Let_def)
  qed
qed

lemma assign_all_rel:
  assumes "list_all2 same_measurements s1 s2"
    and "rel_sum (=) (list_all2 (list_all2 same_measurements)) acc1 acc2"
  shows "rel_sum (=) (list_all2 (list_all2 same_measurements))
           (foldl (assign_sample cs) acc1 s1) (foldl (assign_sample cs) acc2 s2)"
  using assms
proof (induction s1 s2 arbitrary: acc1 acc2 rule: list_all2_induct)
  case Nil
  then show ?case by simp
next
  case (Cons a s1 b s2)
  from assign_sample_rel[OF Cons.prems Cons.hyps(1), of cs]
  show ?case by (simp add: Cons.IH)
qed

lemma foldl_add_cong:
  assumes "list_all2 same_measurements xs ys"
  shows "foldl (\<lambda>a b. a + conductivity b) a0 xs = foldl (\<lambda>a b. a + conductivity b) a0 ys"
    and "foldl (\<lambda>a b. a + nitrate b) a0 xs = foldl (\<lambda>a b. a + nitrate b) a0 ys"
  using assms
  by (induction xs ys arbitrary: a0 rule: list_all2_induct) (simp_all add: same_measurements_def)

lemma recompute_cong:
  assumes "list_all2 (list_all2 same_measurements) g1 g2"
  shows "recompute cs g1 = recompute cs g2"
proof (rule nth_equalityI)
  have len: "length g1 = length g2" using assms by (rule list_all2_lengthD)
  then show "length (recompute cs g1) = length (recompute cs g2)"
    by (simp add: recompute_def)
  fix i assume "i < length (recompute cs g1)"
  then have i: "i < length g1" by (simp add: recompute_def)
  have grp: "list_all2 same_measurements (g1 ! i) (g2 ! i)"
    using assms i by (rule list_all2_nthD)
  then have same_len: "length (g1 ! i) = length (g2 ! i)" by (rule list_all2_lengthD)
  then have "g1 ! i = [] \<longleftrightarrow> g2 ! i = []" by auto
  then show "recompute cs g1 ! i = recompute cs g2 ! i"
    using i len same_len foldl_add_cong[OF grp, of 0] by (simp add: recompute_def)
qed

lemma kmeans_iteration_cong:
  assumes "list_all2 same_measurements s1 s2"
  shows "kmeans_iteration s1 count cs = kmeans_iteration s2 count cs"
proof -
  have "rel_sum (=) (list_all2 (list_all2 same_measurements))
      (Inr (replicate count [])) (Inr (replicate count []))"
    by (simp add: list_all2_conv_all_nth)
  from assign_all_rel[OF assms this, of cs]
  have rel: "rel_sum (=) (list_all2 (list_all2 same_measurements))
      (foldl (assign_sample cs) (Inr (replicate count [])) s1)
      (foldl (assign_sample cs) (Inr (replicate count [])) s2)" .
  show ?thesis
  proof (cases "foldl (assign_sample cs) (Inr (replicate count [])) s1")
    case (Inl e)
    with rel have "foldl (assign_sample cs) (Inr (replicate count [])) s2 = Inl e"
      by (cases "foldl (assign_sample cs) (Inr (replicate count [])) s2") simp_all
    with Inl show ?thesis by (simp add: kmeans_iteration_def)
  next
    case (Inr g1)
    with rel obtain g2 where "foldl (assign_sample cs) (Inr (replicate count [])) s2 = Inr g2"
      "list_all2 (list_all2 same_measurements) g1 g2"
      by (cases "foldl (assign_sample cs) (Inr (replicate count [])) s2") simp_all
    with Inr show ?thesis by (simp add: kmeans_iteration_def recompute_cong)
  qed
qed

lemma kmeans_loop_cong:
  assumes "list_all2 same_measurements s1 s2"
  shows "kmeans_loop s1 count iter cs = kmeans_loop s2 count iter cs"
  using assms
proof (induction s1 count iter cs rule: kmeans_loop.induct)
  case (1 samples count iter centroids)
  note it = kmeans_iteration_cong[OF "1.prems", of count centroids]
  show ?case
  proof (cases "iter < 10")
    case False
    then show ?thesis
      by (simp add: kmeans_loop.simps[of samples count iter] kmeans_loop.simps[of s2 count iter])
  next
    case True
    show ?thesis
    proof (cases "kmeans_iteration samples count centroids")
      case (Inl e)
      then show ?thesis
        using True it
        by (simp add: kmeans_loop.simps[of samples count iter] kmeans_loop.simps[of s2 count iter])
    next
      case (Inr cs')
      from "1.IH"[OF True Inr "1.prems"] Inr it True show ?thesis
        by (simp add: kmeans_loop.simps[of samples count iter] kmeans_loop.simps[of s2 count iter])
    qed
  qed
qed

lemma list_all2_same_maps:
  assumes "list_all2 same_measurements s1 s2"
  shows "map conductivity s1 = map conductivity s2" and "map nitrate s1 = map nitrate s2"
  using assms by (induction rule: list_all2_induct) (simp_all add: same_measurements_def)

lemma seed_centroids_cong:
  assumes "list_all2 same_measurements s1 s2"
  shows "seed_centroids s1 count = seed_centroids s2 count"
proof -
  have "list_all2 same_measurements (take count s1) (take count s2)"
    using assms by (rule list_all2_takeI)
  then show ?thesis
    unfolding seed_centroids_def
    by (induction rule: list_all2_induct) (simp_all add: same_measurements_def)
qed

lemma computeCentroids_cong:
  assumes "list_all2 same_measurements s1 s2"
  shows "computeCentroids s1 count algo = computeCentroids s2 count algo"
  by (simp add: computeCentroids_def list_all2_same_maps[OF assms]
      seed_centroids_cong[OF assms] kmeans_loop_cong[OF assms])

lemma labels_cong:
  assumes "list_all2 same_measurements s1 s2"
  shows "map cluster (map (label_sample labels cs) s1) = map cluster (map (label_sample labels cs) s2)"
  using assms
  by (induction rule: list_all2_induct) (simp_all add: label_sample_def nearestCentroid_cong)

lemma map_cluster_update: "map cluster (map (\<lambda>s. s\<lparr>cluster := c\<rparr>) xs) = replicate (length xs) c"
  by (induction xs) simp_all

lemma kmeans_pass_Inl: "(kmeans_pass samples count ^^ n) (Inl e) = Inl e"
  by (induction n) (simp_all add: kmeans_pass_def)

lemma kmeans_loop_funpow:
  "iter \<le> 10 \<Longrightarrow>
   kmeans_loop samples count iter cs = (kmeans_pass samples count ^^ (10 - iter)) (Inr cs)"
proof (induction samples count iter cs rule: kmeans_loop.induct)
  case (1 samples count iter centroids)
  show ?case
  proof (cases "iter < 10")
    case False
    with "1.prems" have "iter = 10" by simp
    then show ?thesis by (simp add: kmeans_loop.simps[of samples count 10])
  next
    case True
    then have split: "10 - iter = Suc (10 - (iter + 1))" by simp
    have pow: "(kmeans_pass samples count ^^ (10 - iter)) (Inr centroids) =
        (kmeans_pass samples count ^^ (10 - (iter + 1))) (kmeans_iteration samples count centroids)"
      unfolding split funpow_Suc_right by (simp add: kmeans_pass_def)
    show ?thesis
    proof (cases "kmeans_iteration samples count centroids")
      case (Inl e)
      then show ?thesis
        using True pow by (simp add: kmeans_loop.simps[of samples count iter] kmeans_pass_Inl)
    next
      case (Inr cs')
      from True have "iter + 1 \<le> 10" by simp
      from "1.IH"[OF True Inr this] Inr True pow show ?thesis
        by (simp add: kmeans_loop.simps[of samples count iter])
    qed
  qed
qed

text \<open>
  Claim C9.  The labels that \<open>clusterDataPerPeriod\<close> assigns are a function of the cluster
  count, the palette and the measured values of the samples in their order: two runs on
  inputs that agree there (in particular on identical inputs) give the same outcome and the
  same label for every sample.  The k-means centroids are those of exactly 10 passes started
  from the first \<open>count\<close> samples.
\<close>

theorem clusterDataPerPeriod_deterministic:
  "(list_all2 same_measurements samples1 samples2 \<longrightarrow>
      map_sum id (map cluster) (clusterDataPerPeriod labels samples1 count algo) =
      map_sum id (map cluster) (clusterDataPerPeriod labels samples2 count algo)) \<and>
   computeCentroids samples count KMeans =
     (kmeans_pass samples count ^^ 10)
       (Inr (map (\<lambda>s. \<lparr>ec = conductivity s, no3 = nitrate s\<rparr>) (take count samples)))"
proof (intro conjI impI)
  assume rel: "list_all2 same_measurements samples1 samples2"
  then have len: "length samples1 = length samples2" by (rule list_all2_lengthD)
  show "map_sum id (map cluster) (clusterDataPerPeriod labels samples1 count algo) =
      map_sum id (map cluster) (clusterDataPerPeriod labels samples2 count algo)"
  proof (cases "length samples1 < count")
    case True
    then show ?thesis
      using len by (simp add: clusterDataPerPeriod_def map_cluster_update del: map_map)
  next
    case False
    show ?thesis
    proof (cases "computeCentroids samples1 count algo")
      case (Inl e)
      then show ?thesis
        using False len computeCentroids_cong[OF rel, of count algo]
        by (simp add: clusterDataPerPeriod_def)
    next
      case (Inr cs)
      then show ?thesis
        using False len computeCentroids_cong[OF rel, of count algo] labels_cong[OF rel]
        by (simp add: clusterDataPerPeriod_def del: map_map)
    qed
  qed
next
  show "computeCentroids samples count KMeans =
     (kmeans_pass samples count ^^ 10)
       (Inr (map (\<lambda>s. \<lparr>ec = conductivity s, no3 = nitrate s\<rparr>) (take count samples)))"
    using kmeans_loop_funpow[of 0 samples count "seed_centroids samples count"]
    by (simp add: computeCentroids_def seed_centroids_def)
qed

theorem clusterDataPerPeriod_deterministic_witness:
  "list_all2 same_measurements
     [\<lparr>sample_id = ''W1'', conductivity = 100, nitrate = 1, timestamp = ''p1'',
        location = None, cluster = None, clusterColor = None\<rparr>,
      \<lparr>sample_id = ''W2'', conductivity = 900, nitrate = 20, timestamp = ''p1'',
        location = None, cluster = None, clusterColor = None\<rparr>,
      \<lparr>sample_id = ''W3'', conductivity = 500, nitrate = 11, timestamp = ''p1'',
        location = None, cluster = None, clusterColor = None\<rparr>]
     [\<lparr>sample_id = ''X7'', conductivity = 100, nitrate = 1, timestamp = ''p2'',
        location = None, cluster = Some ''poor'', clusterColor = None\<rparr>,
      \<lparr>sample_id = ''X8'', conductivity = 900, nitrate = 20, timestamp = ''p2'',
        location = None, cluster = None, clusterColor = None\<rparr>,
      \<lparr>sample_id = ''X9'', conductivity = 500, nitrate = 11, timestamp = ''p2'',
        location = None, cluster = Some ''good'', clusterColor = None\<rparr>] \<and>
   map_sum id (map cluster) (clusterDataPerPeriod (currentClusterLabels 2)
     [\<lparr>sample_id = ''W1'', conductivity = 100, nitrate = 1, timestamp = ''p1'',
        location = None, cluster = None, clusterColor = None\<rparr>,
      \<lparr>sample_id = ''W2'', conductivity = 900, nitrate = 20, timestamp = ''p1'',
        location = None, cluster = None, clusterColor = None\<rparr>,
      \<lparr>sample_id = ''W3'', conductivity = 500, nitrate = 11, timestamp = ''p1'',
        location = None, cluster = None, clusterColor = None\<rparr>] 2 KMeans) =
     Inr [Some ''group 1'', Some ''group 2'', Some ''group 2''] \<and>
   map_sum id (map cluster) (clusterDataPerPeriod (currentClusterLabels 2)
     [\<lparr>sample_id = ''X7'', conductivity = 100, nitrate = 1, timestamp = ''p2'',
        location = None, cluster = Some ''poor'', clusterColor = None\<rparr>,
      \<lparr>sample_id = ''X8'', conductivity = 900, nitrate = 20, timestamp = ''p2'',
        location = None, cluster = None, clusterColor = None\<rparr>,
      \<lparr>sample_id = ''X9'', conductivity = 500, nitrate = 11, timestamp = ''p2'',
        location = None, cluster = Some ''good'', clusterColor = None\<rparr>] 2 KMeans) =
     Inr [Some ''group 1'', Some ''group 2'', Some ''group 2'']"
proof -
  let ?A = "[\<lparr>sample_id = ''W1'', conductivity = 100, nitrate = 1, timestamp = ''p1'',
        location = None, cluster = None, clusterColor = None\<rparr>,
      \<lparr>sample_id = ''W2'', conductivity = 900, nitrate = 20, timestamp = ''p1'',
        location = None, cluster = None, clusterColor = None\<rparr>,
      \<lparr>sample_id = ''W3'', conductivity = 500, nitrate = 11, timestamp = ''p1'',
        location = None, cluster = None, clusterColor = None\<rparr>]"
  let ?B = "[\<lparr>sample_id = ''X7'', conductivity = 100, nitrate = 1, timestamp = ''p2'',
        location = None, cluster = Some ''poor'', clusterColor = None\<rparr>,
      \<lparr>sample_id = ''X8'', conductivity = 900, nitrate = 20, timestamp = ''p2'',
        location = None, cluster = None, clusterColor = None\<rparr>,
      \<lparr>sample_id = ''X9'', conductivity = 500, nitrate = 11, timestamp = ''p2'',
        location = None, cluster = Some ''good'', clusterColor = None\<rparr>]"
  have rel: "list_all2 same_measurements ?A ?B"
    by (simp add: same_measurements_def)
  have labels: "currentClusterLabels 2 = [''group 1'', ''group 2'']"
    by code_simp
  have cen: "computeCentroids ?A 2 KMeans = Inr [\<lparr>ec = 100, no3 = 1\<rparr>, \<lparr>ec = 700, no3 = 31 / 2\<rparr>]"
    by (simp add: computeCentroids_def seed_centroids_def kmeans_loop.simps kmeans_iteration_def
        assign_sample_def nearestCentroid_def distance_def recompute_def Let_def
        eval_nat_numeral upt_conv_Cons)
  have a: "map_sum id (map cluster) (clusterDataPerPeriod (currentClusterLabels 2) ?A 2 KMeans) =
     Inr [Some ''group 1'', Some ''group 2'', Some ''group 2'']"
    by (simp add: clusterDataPerPeriod_def cen labels sortCentroids_def magnitude_def
        label_sample_def nearestCentroid_def distance_def js_index_def power2_eq_square)
  have "map_sum id (map cluster) (clusterDataPerPeriod (currentClusterLabels 2) ?A 2 KMeans) =
      map_sum id (map cluster) (clusterDataPerPeriod (currentClusterLabels 2) ?B 2 KMeans)"
    using clusterDataPerPeriod_deterministic[of ?A ?B "currentClusterLabels 2" 2 KMeans] rel
    by blast
  with a rel show ?thesis by simp
qed

section \<open>Proofs: volatility score\<close>

lemma volatility_loop_nonneg:
  "0 \<le> totalChange \<Longrightarrow>
   0 \<le> fst (volatility_loop meanEC meanNO3 history i totalChange clusterJumps)"
proof (induction meanEC meanNO3 history i totalChange clusterJumps rule: volatility_loop.induct)
  case (1 meanEC meanNO3 history i totalChange clusterJumps)
  show ?case
  proof (cases "i < length history")
    case False
    then show ?thesis
      using "1.prems" by (subst volatility_loop.simps) simp
  next
    case True
    let ?dEC = "\<bar>h_ec (history ! i) - h_ec (history ! (i - 1))\<bar> / or_one meanEC"
    let ?dNO3 = "\<bar>h_no3 (history ! i) - h_no3 (history ! (i - 1))\<bar> / or_one meanNO3"
    have "0 \<le> totalChange + sqrt (?dEC * ?dEC + ?dNO3 * ?dNO3)"
      using "1.prems" by simp
    from "1.IH"[OF True refl refl this] True show ?thesis
      by (subst volatility_loop.simps) (simp add: Let_def)
  qed
qed

lemma volatility_loop_constant:
  assumes "\<forall>e \<in> set history. h_ec e = a \<and> h_no3 e = b \<and> h_cluster e = c" and "1 \<le> i"
  shows "volatility_loop meanEC meanNO3 history i totalChange clusterJumps = (totalChange, clusterJumps)"
  using assms
proof (induction meanEC meanNO3 history i totalChange clusterJumps rule: volatility_loop.induct)
  case (1 meanEC meanNO3 history i totalChange clusterJumps)
  show ?case
  proof (cases "i < length history")
    case False
    then show ?thesis by (subst volatility_loop.simps) simp
  next
    case True
    with "1.prems"(2) have "history ! i \<in> set history" "history ! (i - Suc 0) \<in> set history"
      by simp_all
    with "1.prems"(1) have same:
      "h_ec (history ! i) = a" "h_ec (history ! (i - Suc 0)) = a"
      "h_no3 (history ! i) = b" "h_no3 (history ! (i - Suc 0)) = b"
      "h_cluster (history ! i) = c" "h_cluster (history ! (i - Suc 0)) = c"
      by blast+
    have next_i: "1 \<le> i + 1" by simp
    have "volatility_loop meanEC meanNO3 history i totalChange clusterJumps =
        volatility_loop meanEC meanNO3 history (i + 1) (totalChange + sqrt (0 * 0 + 0 * 0)) clusterJumps"
      using True by (subst volatility_loop.simps) (simp add: Let_def same)
    also have "\<dots> = (totalChange + sqrt (0 * 0 + 0 * 0), clusterJumps)"
      using "1.IH"[OF True refl refl "1.prems"(1) next_i] by (simp add: same)
    finally show ?thesis by simp
  qed
qed

lemma station_ranking_nonneg: "0 \<le> score (station_ranking meanEC meanNO3 (sid, history))"
proof -
  obtain t j where tj: "volatility_loop meanEC meanNO3 history 1 0 0 = (t, j)"
    by (cases "volatility_loop meanEC meanNO3 history 1 0 0")
  have "0 \<le> t"
    using volatility_loop_nonneg[of 0 meanEC meanNO3 history 1 0] tj by simp
  then have "0 \<le> (if length history > 1 then t / (real (length history) - 1) else 0)"
    by simp
  then show ?thesis
    unfolding station_ranking_def prod.case tj by (simp add: Let_def)
qed

lemma station_ranking_constant:
  assumes "\<forall>e \<in> set history. h_ec e = a \<and> h_no3 e = b \<and> h_cluster e = c"
  shows "score (station_ranking meanEC meanNO3 (sid, history)) = 0"
  by (simp add: station_ranking_def volatility_loop_constant[OF assms])

lemma r_id_station_ranking: "r_id (station_ranking meanEC meanNO3 (sid, history)) = sid"
  by (simp add: station_ranking_def split: prod.splits)

lemma set_push_history:
  "(k', h') \<in> set (push_history ph k e) \<Longrightarrow>
   (k', h') \<in> set ph \<or> (k' = k \<and> (h' = [e] \<or> (\<exists>h. (k, h) \<in> set ph \<and> h' = h @ [e])))"
  by (auto simp: push_history_def split: option.splits if_splits)

lemma collect_sample_inv:
  assumes "\<forall>(k, h) \<in> set (fst st). \<forall>e \<in> set h. \<exists>s \<in> S. sample_id s = k \<and>
             e = \<lparr>h_ec = conductivity s, h_no3 = nitrate s,
                  h_cluster = (case cluster s of None \<Rightarrow> [] | Some c \<Rightarrow> c)\<rparr>"
  shows "\<forall>(k, h) \<in> set (fst (collect_sample st x)). \<forall>e \<in> set h. \<exists>s \<in> insert x S. sample_id s = k \<and>
             e = \<lparr>h_ec = conductivity s, h_no3 = nitrate s,
                  h_cluster = (case cluster s of None \<Rightarrow> [] | Some c \<Rightarrow> c)\<rparr>"
proof -
  obtain ph allEC allNO3 where st: "st = (ph, allEC, allNO3)" by (cases st)
  let ?e = "\<lparr>h_ec = conductivity x, h_no3 = nitrate x,
                  h_cluster = (case cluster x of None \<Rightarrow> [] | Some c \<Rightarrow> c)\<rparr>"
  have fst_eq: "fst (collect_sample st x) = push_history ph (sample_id x) ?e"
    by (simp add: st collect_sample_def)
  show ?thesis
    unfolding fst_eq
  proof (intro ballI, clarify)
    fix k h e assume kh: "(k, h) \<in> set (push_history ph (sample_id x) ?e)" and e: "e \<in> set h"
    from set_push_history[OF kh]
    consider "(k, h) \<in> set ph" | "k = sample_id x" "h = [?e]"
      | h0 where "k = sample_id x" "(sample_id x, h0) \<in> set ph" "h = h0 @ [?e]"
      by blast
    then show "\<exists>s \<in> insert x S. sample_id s = k \<and>
             e = \<lparr>h_ec = conductivity s, h_no3 = nitrate s,
                  h_cluster = (case cluster s of None \<Rightarrow> [] | Some c \<Rightarrow> c)\<rparr>"
    proof cases
      case 1
      with assms e show ?thesis by (fastforce simp: st)
    next
      case 2
      with e show ?thesis by auto
    next
      case 3
      with e have "e \<in> set h0 \<or> e = ?e" by auto
      then show ?thesis
      proof
        assume "e \<in> set h0"
        with assms 3(1,2) show ?thesis by (fastforce simp: st)
      next
        assume "e = ?e"
        with 3(1) show ?thesis by auto
      qed
    qed
  qed
qed

lemma foldl_collect_sample_inv:
  assumes "\<forall>(k, h) \<in> set (fst st). \<forall>e \<in> set h. \<exists>s \<in> S. sample_id s = k \<and>
             e = \<lparr>h_ec = conductivity s, h_no3 = nitrate s,
                  h_cluster = (case cluster s of None \<Rightarrow> [] | Some c \<Rightarrow> c)\<rparr>"
  shows "\<forall>(k, h) \<in> set (fst (foldl collect_sample st xs)). \<forall>e \<in> set h.
           \<exists>s \<in> S \<union> set xs. sample_id s = k \<and>
             e = \<lparr>h_ec = conductivity s, h_no3 = nitrate s,
                  h_cluster = (case cluster s of None \<Rightarrow> [] | Some c \<Rightarrow> c)\<rparr>"
  using assms
proof (induction xs arbitrary: st S)
  case Nil
  then show ?case by simp
next
  case (Cons x xs)
  from Cons.IH[OF collect_sample_inv[OF Cons.prems, of x]] show ?case by simp
qed

lemma collect_inv:
  "\<forall>(k, h) \<in> set (fst (collect tps)). \<forall>e \<in> set h.
     \<exists>s \<in> (\<Union>tp \<in> set tps. set (tp_samples tp)). sample_id s = k \<and>
       e = \<lparr>h_ec = conductivity s, h_no3 = nitrate s,
                  h_cluster = (case cluster s of None \<Rightarrow> [] | Some c \<Rightarrow> c)\<rparr>"
proof -
  have "\<forall>(k, h) \<in> set (fst (foldl (\<lambda>st tp. foldl collect_sample st (tp_samples tp)) st tps)).
          \<forall>e \<in> set h. \<exists>s \<in> S \<union> (\<Union>tp \<in> set tps. set (tp_samples tp)). sample_id s = k \<and>
             e = \<lparr>h_ec = conductivity s, h_no3 = nitrate s,
                  h_cluster = (case cluster s of None \<Rightarrow> [] | Some c \<Rightarrow> c)\<rparr>"
    if "\<forall>(k, h) \<in> set (fst st). \<forall>e \<in> set h. \<exists>s \<in> S. sample_id s = k \<and>
             e = \<lparr>h_ec = conductivity s, h_no3 = nitrate s,
                  h_cluster = (case cluster s of None \<Rightarrow> [] | Some c \<Rightarrow> c)\<rparr>"
    for st :: "(string \<times> history_entry list) list \<times> real list \<times> real list" and S
    using that
  proof (induction tps arbitrary: st S)
    case Nil
    then show ?case by simp
  next
    case (Cons tp tps)
    from Cons.IH[OF foldl_collect_sample_inv[OF Cons.prems, of "tp_samples tp"]]
    show ?case by (simp add: Un_assoc)
  qed
  from this[of "([], [], [])" "{}"] show ?thesis
    by (simp add: collect_def)
qed

text \<open>
  Claim C10.  Every score of the volatility ranking (the average normalised Euclidean step
  between consecutive periods plus 0.2 for each change of cluster label) is non-negative,
  and it is 0 for a station whose samples carry the same conductivity, the same nitrate
  and the same cluster label in every period.  The same holds of the score computed from
  any history and any pair of means.
\<close>

theorem volatilityRanking_score:
  "(\<forall>r \<in> set (volatilityRanking processedTimePoints).
      0 \<le> score r \<and>
      ((\<forall>tp \<in> set processedTimePoints. \<forall>s \<in> set (tp_samples tp).
          sample_id s = r_id r \<longrightarrow>
            conductivity s = a \<and> nitrate s = b \<and>
            (case cluster s of None \<Rightarrow> [] | Some l \<Rightarrow> l) = c) \<longrightarrow>
       score r = 0)) \<and>
   0 \<le> score (station_ranking meanEC meanNO3 (sid, history)) \<and>
   ((\<forall>e \<in> set history. h_ec e = a \<and> h_no3 e = b \<and> h_cluster e = c) \<longrightarrow>
      score (station_ranking meanEC meanNO3 (sid, history)) = 0)"
proof (intro conjI ballI impI)
  fix r assume r: "r \<in> set (volatilityRanking processedTimePoints)"
  obtain ph allEC allNO3 where col: "collect processedTimePoints = (ph, allEC, allNO3)"
    by (cases "collect processedTimePoints")
  let ?mEC = "reduce_add allEC / real (length allEC)"
  let ?mNO3 = "reduce_add allNO3 / real (length allNO3)"
  from r have "r \<in> set (map (station_ranking ?mEC ?mNO3) ph)"
    by (simp add: volatilityRanking_def col Let_def split: if_splits)
  then obtain k h where kh: "(k, h) \<in> set ph" "r = station_ranking ?mEC ?mNO3 (k, h)"
    by auto
  show "0 \<le> score r"
    unfolding kh(2) by (rule station_ranking_nonneg)
  assume same: "\<forall>tp \<in> set processedTimePoints. \<forall>s \<in> set (tp_samples tp).
          sample_id s = r_id r \<longrightarrow>
            conductivity s = a \<and> nitrate s = b \<and>
            (case cluster s of None \<Rightarrow> [] | Some l \<Rightarrow> l) = c"
  have rid: "r_id r = k" unfolding kh(2) by (rule r_id_station_ranking)
  have "\<forall>e \<in> set h. h_ec e = a \<and> h_no3 e = b \<and> h_cluster e = c"
  proof
    fix e assume "e \<in> set h"
    with collect_inv[of processedTimePoints] kh(1) col
    obtain s tp where "tp \<in> set processedTimePoints" "s \<in> set (tp_samples tp)" "sample_id s = k"
      "e = \<lparr>h_ec = conductivity s, h_no3 = nitrate s,
                  h_cluster = (case cluster s of None \<Rightarrow> [] | Some c \<Rightarrow> c)\<rparr>"
      by fastforce
    with same rid show "h_ec e = a \<and> h_no3 e = b \<and> h_cluster e = c" by auto
  qed
  then show "score r = 0"
    unfolding kh(2) by (rule station_ranking_constant)
next
  show "0 \<le> score (station_ranking meanEC meanNO3 (sid, history))"
    by (rule station_ranking_nonneg)
next
  assume "\<forall>e \<in> set history. h_ec e = a \<and> h_no3 e = b \<and> h_cluster e = c"
  then show "score (station_ranking meanEC meanNO3 (sid, history)) = 0"
    by (rule station_ranking_constant)
qed

theorem volatilityRanking_score_witness:
  "volatilityRanking
     [\<lparr>tp_date = ''2024-01'', tp_samples =
        [\<lparr>sample_id = ''A'', conductivity = 100, nitrate = 5, timestamp = ''2024-01.xlsx'',
         location = None, cluster = Some ''good'', clusterColor = None\<rparr>,
         \<lparr>sample_id = ''B'', conductivity = 200, nitrate = 10, timestamp = ''2024-01.xlsx'',
         location = None, cluster = Some ''good'', clusterColor = None\<rparr>]\<rparr>,
      \<lparr>tp_date = ''2024-02'', tp_samples =
        [\<lparr>sample_id = ''A'', conductivity = 100, nitrate = 5, timestamp = ''2024-02.xlsx'',
         location = None, cluster = Some ''good'', clusterColor = None\<rparr>,
         \<lparr>sample_id = ''B'', conductivity = 300, nitrate = 10, timestamp = ''2024-02.xlsx'',
         location = None, cluster = Some ''poor'', clusterColor = None\<rparr>]\<rparr>] =
     [\<lparr>r_id = ''B'', score = 27 / 35, jumps = 1\<rparr>, \<lparr>r_id = ''A'', score = 0, jumps = 0\<rparr>] \<and>
   0 \<le> score (volatilityRanking
     [\<lparr>tp_date = ''2024-01'', tp_samples =
        [\<lparr>sample_id = ''A'', conductivity = 100, nitrate = 5, timestamp = ''2024-01.xlsx'',
         location = None, cluster = Some ''good'', clusterColor = None\<rparr>,
         \<lparr>sample_id = ''B'', conductivity = 200, nitrate = 10, timestamp = ''2024-01.xlsx'',
         location = None, cluster = Some ''good'', clusterColor = None\<rparr>]\<rparr>,
      \<lparr>tp_date = ''2024-02'', tp_samples =
        [\<lparr>sample_id = ''A'', conductivity = 100, nitrate = 5, timestamp = ''2024-02.xlsx'',
         location = None, cluster = Some ''good'', clusterColor = None\<rparr>,
         \<lparr>sample_id = ''B'', conductivity = 300, nitrate = 10, timestamp = ''2024-02.xlsx'',
         location = None, cluster = Some ''poor'', clusterColor = None\<rparr>]\<rparr>] ! 0) \<and>
   r_id (volatilityRanking
     [\<lparr>tp_date = ''2024-01'', tp_samples =
        [\<lparr>sample_id = ''A'', conductivity = 100, nitrate = 5, timestamp = ''2024-01.xlsx'',
         location = None, cluster = Some ''good'', clusterColor = None\<rparr>,
         \<lparr>sample_id = ''B'', conductivity = 200, nitrate = 10, timestamp = ''2024-01.xlsx'',
         location = None, cluster = Some ''good'', clusterColor = None\<rparr>]\<rparr>,
      \<lparr>tp_date = ''2024-02'', tp_samples =
        [\<lparr>sample_id = ''A'', conductivity = 100, nitrate = 5, timestamp = ''2024-02.xlsx'',
         location = None, cluster = Some ''good'', clusterColor = None\<rparr>,
         \<lparr>sample_id = ''B'', conductivity = 300, nitrate = 10, timestamp = ''2024-02.xlsx'',
         location = None, cluster = Some ''poor'', clusterColor = None\<rparr>]\<rparr>] ! 1) = ''A'' \<and>
   score (volatilityRanking
     [\<lparr>tp_date = ''2024-01'', tp_samples =
        [\<lparr>sample_id = ''A'', conductivity = 100, nitrate = 5, timestamp = ''2024-01.xlsx'',
         location = None, cluster = Some ''good'', clusterColor = None\<rparr>,
         \<lparr>sample_id = ''B'', conductivity = 200, nitrate = 10, timestamp = ''2024-01.xlsx'',
         location = None, cluster = Some ''good'', clusterColor = None\<rparr>]\<rparr>,
      \<lparr>tp_date = ''2024-02'', tp_samples =
        [\<lparr>sample_id = ''A'', conductivity = 100, nitrate = 5, timestamp = ''2024-02.xlsx'',
         location = None, cluster = Some ''good'', clusterColor = None\<rparr>,
         \<lparr>sample_id = ''B'', conductivity = 300, nitrate = 10, timestamp = ''2024-02.xlsx'',
         location = None, cluster = Some ''poor'', clusterColor = None\<rparr>]\<rparr>] ! 1) = 0"
proof -
  let ?tps = "[\<lparr>tp_date = ''2024-01'', tp_samples =
        [\<lparr>sample_id = ''A'', conductivity = 100, nitrate = 5, timestamp = ''2024-01.xlsx'',
         location = None, cluster = Some ''good'', clusterColor = None\<rparr>,
         \<lparr>sample_id = ''B'', conductivity = 200, nitrate = 10, timestamp = ''2024-01.xlsx'',
         location = None, cluster = Some ''good'', clusterColor = None\<rparr>]\<rparr>,
      \<lparr>tp_date = ''2024-02'', tp_samples =
        [\<lparr>sample_id = ''A'', conductivity = 100, nitrate = 5, timestamp = ''2024-02.xlsx'',
         location = None, cluster = Some ''good'', clusterColor = None\<rparr>,
         \<lparr>sample_id = ''B'', conductivity = 300, nitrate = 10, timestamp = ''2024-02.xlsx'',
         location = None, cluster = Some ''poor'', clusterColor = None\<rparr>]\<rparr>]"
  have ev: "volatilityRanking ?tps =
     [\<lparr>r_id = ''B'', score = 27 / 35, jumps = 1\<rparr>, \<lparr>r_id = ''A'', score = 0, jumps = 0\<rparr>]"
    by (simp add: volatilityRanking_def collect_def collect_sample_def push_history_def
        reduce_add_def station_ranking_def volatility_loop.simps or_one_def Let_def)
  have still: "\<forall>tp \<in> set ?tps. \<forall>s \<in> set (tp_samples tp).
      sample_id s = ''A'' \<longrightarrow>
        conductivity s = 100 \<and> nitrate s = 5 \<and>
        (case cluster s of None \<Rightarrow> [] | Some l \<Rightarrow> l) = ''good''"
    by simp
  have mem: "volatilityRanking ?tps ! 0 \<in> set (volatilityRanking ?tps)"
    "volatilityRanking ?tps ! 1 \<in> set (volatilityRanking ?tps)"
    unfolding ev by simp_all
  have rid: "r_id (volatilityRanking ?tps ! 1) = ''A''"
    unfolding ev by simp
  note inst = volatilityRanking_score[of ?tps 100 5 "''good''"]
  have nn: "0 \<le> score (volatilityRanking ?tps ! 0)"
    using inst mem(1) by blast
  have "(\<forall>tp \<in> set ?tps. \<forall>s \<in> set (tp_samples tp).
          sample_id s = r_id (volatilityRanking ?tps ! 1) \<longrightarrow>
            conductivity s = 100 \<and> nitrate s = 5 \<and>
            (case cluster s of None \<Rightarrow> [] | Some l \<Rightarrow> l) = ''good'') \<longrightarrow>
        score (volatilityRanking ?tps ! 1) = 0"
    using inst mem(2) by blast
  with still have z: "score (volatilityRanking ?tps ! 1) = 0"
    unfolding rid by blast
  from ev nn rid z show ?thesis by blast
qed

end
